theory Spec2Isabelle
  imports Complex_Main "HOL-Library.AList"
begin

section \<open>Conventions of the embedding\<close>

text \<open>
  The program is JavaScript. A JavaScript number that carries a price, a
  quantity or a volume is modelled as a \<^typ>\<open>real\<close>: the arithmetic is exact and
  the values NaN and Infinity do not occur. Millisecond timestamps, window ids
  and configured sizes are integers, array lengths and indices are naturals.
  A field that may hold \<open>null\<close> is an \<open>option\<close>. An object that the source
  mutates in place is passed in and returned. Logging is not modelled.

  Several JavaScript objects use the same field name (\<open>price\<close>, \<open>delta\<close>,
  \<open>totalVolume\<close>, ...). The records keep the names of the source, and a selector
  is written with its record where two records share it, as in
  \<open>cluster.price\<close> and \<open>pivot.price\<close>.
\<close>

datatype error = TypeError

section \<open>engines/FootprintEngine.js\<close>

text \<open>One aggTrade message, its fields \<open>p\<close> and \<open>q\<close> after \<open>parseFloat\<close>.\<close>

record agg_trade =
  msg_e :: string
  msg_p :: real
  msg_q :: real
  msg_m :: bool

record cluster =
  price :: real
  buyVolume :: real
  sellVolume :: real
  totalVolume :: real
  delta :: real

text \<open>
  \<open>clusters\<close> is a JavaScript \<open>Map\<close> from price level to cluster object. A
  \<open>Map\<close> iterates in insertion order, so it is an association list:
  \<open>map_of\<close> is \<open>get\<close>, \<open>AList.update\<close> is \<open>set\<close> (it replaces the value of a
  present key in place and appends an absent key at the end).
\<close>

record footprint_engine =
  clusters :: "(real \<times> cluster) list"
  totalBuyVolume :: real
  totalSellVolume :: real
  tradeCount :: nat
  candleOpenTime :: "int option"

record footprint =
  clusters :: "cluster list"
  poc :: real
  pocVolume :: real
  totalBuyVolume :: real
  totalSellVolume :: real
  totalVolume :: real
  delta :: real
  topClusterVolume :: real
  bottomClusterVolume :: real
  tradeCount :: nat

definition FootprintEngine_new :: footprint_engine where
  "FootprintEngine_new =
     \<lparr>footprint_engine.clusters = [], footprint_engine.totalBuyVolume = 0,
      footprint_engine.totalSellVolume = 0, footprint_engine.tradeCount = 0,
      candleOpenTime = None\<rparr>"

text \<open>\<open>Math.round\<close> rounds to the nearest integer, a tie towards plus infinity.\<close>

definition Math_round :: "real \<Rightarrow> real" where
  "Math_round x = of_int \<lfloor>x + 1 / 2\<rfloor>"

definition snapToCluster :: "real \<Rightarrow> real \<Rightarrow> real" where
  "snapToCluster priceClusterSize pr = Math_round (pr / priceClusterSize) * priceClusterSize"

definition newCluster :: "real \<Rightarrow> cluster" where
  "newCluster level =
     \<lparr>cluster.price = level, buyVolume = 0, sellVolume = 0, cluster.totalVolume = 0,
      cluster.delta = 0\<rparr>"

definition handleTrade :: "real \<Rightarrow> footprint_engine \<Rightarrow> agg_trade \<Rightarrow> footprint_engine" where
  "handleTrade priceClusterSize eng msg =
     (if msg_e msg \<noteq> ''aggTrade'' then eng
      else
        let pr = msg_p msg;
            qty = msg_q msg;
            isBuyerMaker = msg_m msg;
            level = snapToCluster priceClusterSize pr;
            cs = (if map_of (footprint_engine.clusters eng) level = None
                  then AList.update level (newCluster level) (footprint_engine.clusters eng)
                  else footprint_engine.clusters eng);
            c0 = the (map_of cs level);
            c1 = (if isBuyerMaker then c0\<lparr>sellVolume := sellVolume c0 + qty\<rparr>
                  else c0\<lparr>buyVolume := buyVolume c0 + qty\<rparr>);
            c2 = c1\<lparr>cluster.totalVolume := buyVolume c1 + sellVolume c1\<rparr>;
            c3 = c2\<lparr>cluster.delta := buyVolume c2 - sellVolume c2\<rparr>
        in eng\<lparr>footprint_engine.clusters := AList.update level c3 cs,
                footprint_engine.totalBuyVolume :=
                  (if isBuyerMaker then footprint_engine.totalBuyVolume eng
                   else footprint_engine.totalBuyVolume eng + qty),
                footprint_engine.totalSellVolume :=
                  (if isBuyerMaker then footprint_engine.totalSellVolume eng + qty
                   else footprint_engine.totalSellVolume eng),
                footprint_engine.tradeCount := footprint_engine.tradeCount eng + 1\<rparr>)"

text \<open>
  The reducer of \<open>calculate\<close>: \<open>(max, c) => c.totalVolume > max.totalVolume ? c : max\<close>.
\<close>

definition pocStep :: "cluster \<Rightarrow> cluster \<Rightarrow> cluster" where
  "pocStep mx c = (if cluster.totalVolume c > cluster.totalVolume mx then c else mx)"

text \<open>
  \<open>Array.prototype.sort\<close> is stable, as \<open>sort_key\<close> is. The array is not empty
  where \<open>hd\<close> and \<open>last\<close> read it.
\<close>

definition calculate :: "footprint_engine \<Rightarrow> footprint option" where
  "calculate eng =
     (if length (footprint_engine.clusters eng) = 0 then None
      else
        let clusterArray = sort_key cluster.price (map snd (footprint_engine.clusters eng));
            pc = foldl pocStep (hd clusterArray) clusterArray;
            tv = footprint_engine.totalBuyVolume eng + footprint_engine.totalSellVolume eng;
            dl = footprint_engine.totalBuyVolume eng - footprint_engine.totalSellVolume eng;
            topCluster = last clusterArray;
            bottomCluster = hd clusterArray
        in Some \<lparr>footprint.clusters = clusterArray, poc = cluster.price pc,
                  pocVolume = cluster.totalVolume pc,
                  footprint.totalBuyVolume = footprint_engine.totalBuyVolume eng,
                  footprint.totalSellVolume = footprint_engine.totalSellVolume eng,
                  footprint.totalVolume = tv, footprint.delta = dl,
                  topClusterVolume = cluster.totalVolume topCluster,
                  bottomClusterVolume = cluster.totalVolume bottomCluster,
                  footprint.tradeCount = footprint_engine.tradeCount eng\<rparr>)"

definition reset :: "footprint_engine \<Rightarrow> footprint_engine" where
  "reset eng =
     eng\<lparr>footprint_engine.clusters := [], footprint_engine.totalBuyVolume := 0,
          footprint_engine.totalSellVolume := 0, footprint_engine.tradeCount := 0,
          candleOpenTime := None\<rparr>"

text \<open>The engine after a sequence of messages, starting from a new engine.\<close>

definition ingest :: "real \<Rightarrow> agg_trade list \<Rightarrow> footprint_engine" where
  "ingest priceClusterSize msgs = foldl (handleTrade priceClusterSize) FootprintEngine_new msgs"

section \<open>engines/CandleBuilder.js\<close>

text \<open>
  A one-minute candle and a fifteen-minute candle share their price fields, so
  both records extend \<open>ohlcv\<close>. The field \<open>open\<close> of the source is \<open>open_price\<close>
  here, the name \<open>open\<close> being taken in HOL.
\<close>

record ohlcv =
  openTime :: int
  open_price :: real
  high :: real
  low :: real
  close :: real
  volume :: real

record candle = ohlcv +
  closeTime :: int
  isClosed :: bool

record candle15m = ohlcv +
  windowId :: int
  count :: nat

text \<open>The payload \<open>k\<close> of a kline message, its prices after \<open>parseFloat\<close>.\<close>

record kline =
  k_t :: int
  k_T :: int
  k_o :: real
  k_h :: real
  k_l :: real
  k_c :: real
  k_v :: real
  k_x :: bool

record kline_msg =
  kmsg_e :: string
  kmsg_k :: kline

text \<open>The two events of the builder, \<open>'1mClose'\<close> and \<open>'15mClose'\<close>, with their payload.\<close>

datatype event = Close1m candle | Close15m candle15m

record candle_builder =
  current1m :: "candle option"
  closed1mBuffer :: "candle list"
  closed15m :: "candle15m list"
  max15mHistory :: nat
  current15m :: "candle15m option"

definition CandleBuilder_new :: candle_builder where
  "CandleBuilder_new =
     \<lparr>current1m = None, closed1mBuffer = [], closed15m = [], max15mHistory = 60,
      current15m = None\<rparr>"

definition create15mFrom1m :: "candle \<Rightarrow> int \<Rightarrow> candle15m" where
  "create15mFrom1m candle1m wid =
     \<lparr>openTime = openTime candle1m, open_price = open_price candle1m,
      high = high candle1m, low = low candle1m, close = close candle1m,
      volume = volume candle1m, windowId = wid, count = 1\<rparr>"

definition update15m :: "candle15m \<Rightarrow> candle \<Rightarrow> candle15m" where
  "update15m c15 candle1m =
     c15\<lparr>high := max (high c15) (high candle1m),
          low := min (low c15) (low candle1m),
          close := close candle1m,
          volume := volume c15 + volume candle1m,
          count := count c15 + 1\<rparr>"

text \<open>
  \<open>_close15m\<close> pushes a copy on the history, drops the oldest entry when the
  history is longer than \<open>max15mHistory\<close>, and emits \<open>'15mClose'\<close>.
\<close>

definition close15m :: "candle_builder \<Rightarrow> candle15m \<Rightarrow> candle_builder \<times> event list" where
  "close15m cb c15 =
     (let pushed = closed15m cb @ [c15];
          trimmed = (if length pushed > max15mHistory cb then tl pushed else pushed)
      in (cb\<lparr>closed15m := trimmed\<rparr>, [Close15m c15]))"

definition on1mClose :: "candle_builder \<Rightarrow> candle \<Rightarrow> candle_builder \<times> event list" where
  "on1mClose cb c =
     (let wid = \<lfloor>real_of_int (openTime c) / (15 * 60 * 1000)\<rfloor> in
      case current15m cb of
        None \<Rightarrow> (cb\<lparr>current15m := Some (create15mFrom1m c wid)\<rparr>, [Close1m c])
      | Some cur \<Rightarrow>
          if wid = windowId cur
          then (cb\<lparr>current15m := Some (update15m cur c)\<rparr>, [Close1m c])
          else (let (cb1, evs) = close15m cb cur
                in (cb1\<lparr>current15m := Some (create15mFrom1m c wid)\<rparr>, Close1m c # evs)))"

definition handleKlineMessage :: "candle_builder \<Rightarrow> kline_msg \<Rightarrow> candle_builder \<times> event list" where
  "handleKlineMessage cb msg =
     (if kmsg_e msg \<noteq> ''kline'' then (cb, [])
      else
        let k = kmsg_k msg;
            c = \<lparr>openTime = k_t k, open_price = k_o k, high = k_h k, low = k_l k,
                 close = k_c k, volume = k_v k, closeTime = k_T k, isClosed = k_x k\<rparr>;
            cb1 = cb\<lparr>current1m := Some c\<rparr>
        in if isClosed c then on1mClose cb1 c else (cb1, []))"

text \<open>The builder and the events emitted after a sequence of closed one-minute candles.\<close>

fun feed :: "candle_builder \<Rightarrow> candle list \<Rightarrow> candle_builder \<times> event list" where
  "feed cb [] = (cb, [])"
| "feed cb (c # cs) =
     (let (cb1, evs1) = on1mClose cb c;
          (cb2, evs2) = feed cb1 cs
      in (cb2, evs1 @ evs2))"

fun emitted15m :: "event list \<Rightarrow> candle15m list" where
  "emitted15m [] = []"
| "emitted15m (Close15m c15 # evs) = c15 # emitted15m evs"
| "emitted15m (Close1m c # evs) = emitted15m evs"

section \<open>detectors/SwingDetector.js (the pool of swing levels)\<close>

record pivot =
  price :: real
  time :: int
  idx :: nat

text \<open>
  \<open>lookback\<close> is \<open>parseInt(...) || 2\<close>, a positive count in every configuration
  the specification admits; it is a natural number here.
\<close>

record swing_detector =
  lookback :: nat
  maxPoolSize :: nat
  swingHighPool :: "pivot list"
  swingLowPool :: "pivot list"


text \<open>\<open>while (pool.length > this.maxPoolSize) pool.shift()\<close>\<close>

function shiftWhile :: "nat \<Rightarrow> pivot list \<Rightarrow> pivot list" where
  "shiftWhile mx pool = (if length pool > mx then shiftWhile mx (tl pool) else pool)"
  by pat_completeness auto
termination
  by (relation "measure (\<lambda>(mx, pool). length pool)") auto

definition addToPool :: "nat \<Rightarrow> pivot list \<Rightarrow> pivot \<Rightarrow> pivot list" where
  "addToPool mx pool entry = shiftWhile mx (sort_key time (pool @ [entry]))"

text \<open>
  The two loops of \<open>update\<close>, \<open>for (let i = 1; i <= this.lookback; i++)\<close>, with
  their \<open>break\<close>; the result is the flag \<open>isSwingHigh\<close> (\<open>isSwingLow\<close>). They run
  only where \<open>lb \<le> ix\<close> and \<open>ix + lb < length cs\<close>, so every index is in range.
\<close>

function swingHighLoop :: "candle15m list \<Rightarrow> nat \<Rightarrow> nat \<Rightarrow> nat \<Rightarrow> bool" where
  "swingHighLoop cs ix lb i =
     (if i \<le> lb
      then (if high (cs ! (ix - i)) \<ge> high (cs ! ix) \<or> high (cs ! (ix + i)) \<ge> high (cs ! ix)
            then False
            else swingHighLoop cs ix lb (i + 1))
      else True)"
  by pat_completeness auto
termination
  by (relation "measure (\<lambda>(cs, ix, lb, i). lb + 1 - i)") auto

function swingLowLoop :: "candle15m list \<Rightarrow> nat \<Rightarrow> nat \<Rightarrow> nat \<Rightarrow> bool" where
  "swingLowLoop cs ix lb i =
     (if i \<le> lb
      then (if low (cs ! (ix - i)) \<le> low (cs ! ix) \<or> low (cs ! (ix + i)) \<le> low (cs ! ix)
            then False
            else swingLowLoop cs ix lb (i + 1))
      else True)"
  by pat_completeness auto
termination
  by (relation "measure (\<lambda>(cs, ix, lb, i). lb + 1 - i)") auto

definition update :: "swing_detector \<Rightarrow> candle15m list \<Rightarrow> swing_detector" where
  "update sd candles15m =
     (let len = length candles15m in
      if len < lookback sd * 2 + 1 then sd
      else
        let ix = len - 1 - lookback sd in
        if ix < lookback sd then sd
        else
          let candidate = candles15m ! ix;
              alreadyHigh = list_ex (\<lambda>s. time s = openTime candidate) (swingHighPool sd);
              alreadyLow = list_ex (\<lambda>s. time s = openTime candidate) (swingLowPool sd);
              sd1 = (if \<not> alreadyHigh \<and> swingHighLoop candles15m ix (lookback sd) 1
                     then sd\<lparr>swingHighPool :=
                            addToPool (maxPoolSize sd) (swingHighPool sd)
                              \<lparr>price = high candidate, time = openTime candidate, idx = ix\<rparr>\<rparr>
                     else sd);
              sd2 = (if \<not> alreadyLow \<and> swingLowLoop candles15m ix (lookback sd) 1
                     then sd1\<lparr>swingLowPool :=
                            addToPool (maxPoolSize sd1) (swingLowPool sd1)
                              \<lparr>price = low candidate, time = openTime candidate, idx = ix\<rparr>\<rparr>
                     else sd1)
          in sd2)"

text \<open>
  \<open>Math.max(...xs)\<close> and \<open>Math.min(...xs)\<close>; the source spreads a non-empty
  array only.
\<close>

definition Math_max :: "real list \<Rightarrow> real" where
  "Math_max xs = fold max (tl xs) (hd xs)"

definition Math_min :: "real list \<Rightarrow> real" where
  "Math_min xs = fold min (tl xs) (hd xs)"

record swept_info =
  swept :: "pivot list"
  count :: nat

record swept_lows = swept_info +
  highestSweptLevel :: "real option"
  deepestLevel :: "real option"

record swept_highs = swept_info +
  lowestSweptLevel :: "real option"
  highestLevel :: "real option"

definition getSweptLows :: "swing_detector \<Rightarrow> real \<Rightarrow> swept_lows" where
  "getSweptLows sd candleLow =
     (let sw = filter (\<lambda>s. candleLow < price s) (swingLowPool sd)
      in \<lparr>swept = sw, count = length sw,
          highestSweptLevel = (if length sw > 0 then Some (Math_max (map price sw)) else None),
          deepestLevel = (if length sw > 0 then Some (Math_min (map price sw)) else None)\<rparr>)"

definition getSweptHighs :: "swing_detector \<Rightarrow> real \<Rightarrow> swept_highs" where
  "getSweptHighs sd candleHigh =
     (let sw = filter (\<lambda>s. candleHigh > price s) (swingHighPool sd)
      in \<lparr>swept = sw, count = length sw,
          lowestSweptLevel = (if length sw > 0 then Some (Math_min (map price sw)) else None),
          highestLevel = (if length sw > 0 then Some (Math_max (map price sw)) else None)\<rparr>)"

definition clearSweptLevels :: "swing_detector \<Rightarrow> string \<Rightarrow> pivot list \<Rightarrow> swing_detector" where
  "clearSweptLevels sd ty sweptLevels =
     (let sweptTimes = set (map time sweptLevels) in
      if ty = ''high''
      then sd\<lparr>swingHighPool := filter (\<lambda>s. time s \<notin> sweptTimes) (swingHighPool sd)\<rparr>
      else sd\<lparr>swingLowPool := filter (\<lambda>s. time s \<notin> sweptTimes) (swingLowPool sd)\<rparr>)"

section \<open>The object returned for a confirmed signal\<close>

text \<open>
  The object that \<open>_buildResult\<close> of the pool-based detector returns, declared
  here because it lends two of its field names to the getters of \<open>RollingStats\<close>. \<open>volumeMultiple\<close> and \<open>deltaMultiple\<close> hold the quotient
  that the source formats with \<open>toFixed(2)\<close>; \<open>None\<close> is the quotient by zero,
  which is not finite in JavaScript.
\<close>

record signal_data =
  sweptLevels :: "real list"
  sweptCount :: nat
  swingLevel :: "real option"
  sweepPrice :: "real option"
  delta :: real
  totalVolume :: real
  avgVolume :: real
  avgAbsDelta :: real
  poc :: real
  candleClose :: real
  volumeMultiple :: "real option"
  deltaMultiple :: "real option"
  candle :: candle
  footprint :: footprint
  sweptLowsInfo :: "swept_lows option"
  sweptHighsInfo :: "swept_highs option"

record signal =
  sig_type :: string
  sig_data :: signal_data

section \<open>utils/rollingStats.js\<close>

record rolling_stats =
  windowSize :: int
  volumes :: "real list"
  absDeltaValues :: "real list"
  deltaValues :: "real list"

definition RollingStats_new :: "int \<Rightarrow> rolling_stats" where
  "RollingStats_new ws = \<lparr>windowSize = ws, volumes = [], absDeltaValues = [], deltaValues = []\<rparr>"

definition push :: "rolling_stats \<Rightarrow> real \<Rightarrow> real \<Rightarrow> rolling_stats" where
  "push rs tv dl =
     (let rs1 = rs\<lparr>volumes := volumes rs @ [tv],
                   absDeltaValues := absDeltaValues rs @ [\<bar>dl\<bar>],
                   deltaValues := deltaValues rs @ [dl]\<rparr>
      in if int (length (volumes rs1)) > windowSize rs1
         then rs1\<lparr>volumes := tl (volumes rs1),
                  absDeltaValues := tl (absDeltaValues rs1),
                  deltaValues := tl (deltaValues rs1)\<rparr>
         else rs1)"

definition avgVolume :: "rolling_stats \<Rightarrow> real" where
  "avgVolume rs =
     (if length (volumes rs) = 0 then 0
      else foldl (+) 0 (volumes rs) / real (length (volumes rs)))"

definition avgAbsDelta :: "rolling_stats \<Rightarrow> real" where
  "avgAbsDelta rs =
     (if length (absDeltaValues rs) = 0 then 0
      else foldl (+) 0 (absDeltaValues rs) / real (length (absDeltaValues rs)))"

definition isReady :: "rolling_stats \<Rightarrow> bool" where
  "isReady rs \<longleftrightarrow> int (length (volumes rs)) \<ge> \<lfloor>real_of_int (windowSize rs) / 2\<rfloor>"

section \<open>detectors/AbsorptionDetector.js (the pool-based detector)\<close>

text \<open>The values \<open>'NONE'\<close>, \<open>'SHORT_PENDING'\<close> and \<open>'LONG_PENDING'\<close> of \<open>PendingState\<close>.\<close>

datatype PendingState = NONE | SHORT | LONG

record pending =
  state :: PendingState
  candle :: "candle option"
  footprint :: "footprint option"
  sweptLows :: "swept_lows option"
  sweptHighs :: "swept_highs option"
  sweepPrice :: "real option"
  confirmCount :: nat

text \<open>The part of \<open>config.alert\<close> that the detector reads at each call.\<close>

record alert_config =
  deltaMultiplier :: real
  volumeMultiplier :: real

record absorption_detector =
  stats :: rolling_stats
  minLevelsSwept :: int
  pending :: pending
  maxConfirmCandles :: nat

definition emptyPending :: pending where
  "emptyPending =
     \<lparr>state = NONE, candle = None, footprint = None, sweptLows = None, sweptHighs = None,
      sweepPrice = None, confirmCount = 0\<rparr>"

definition AbsorptionDetector_new :: "int \<Rightarrow> int \<Rightarrow> absorption_detector" where
  "AbsorptionDetector_new rollingWindow minLevels =
     \<lparr>stats = RollingStats_new rollingWindow, minLevelsSwept = minLevels,
      pending = emptyPending, maxConfirmCandles = 2\<rparr>"

definition updateStats :: "absorption_detector \<Rightarrow> real \<Rightarrow> real \<Rightarrow> absorption_detector" where
  "updateStats d tv dl = d\<lparr>stats := push (stats d) tv dl\<rparr>"

definition clearPending :: "absorption_detector \<Rightarrow> absorption_detector" where
  "clearPending d = d\<lparr>pending := emptyPending\<rparr>"

definition hasPending :: "absorption_detector \<Rightarrow> bool" where
  "hasPending d \<longleftrightarrow> state (pending d) \<noteq> NONE"

definition js_div :: "real \<Rightarrow> real \<Rightarrow> real option" where
  "js_div a b = (if b = 0 then None else Some (a / b))"

text \<open>A relational comparison converts \<open>null\<close> to the number 0.\<close>

definition js_num :: "real option \<Rightarrow> real" where
  "js_num v = (case v of None \<Rightarrow> 0 | Some x \<Rightarrow> x)"

text \<open>
  The object literal of \<open>_buildResult\<close>, once \<open>sweptInfo\<close> is known not to be
  \<open>null\<close>: \<open>sw\<close>, \<open>cnt\<close> and \<open>lvl\<close> are \<open>sweptInfo.swept\<close>, \<open>sweptInfo.count\<close> and
  the level that the type selects. Reading a field of \<open>null\<close> throws.
\<close>

definition resultData ::
  "absorption_detector \<Rightarrow> pivot list \<Rightarrow> nat \<Rightarrow> real option \<Rightarrow> error + signal_data" where
  "resultData d sw cnt lvl =
     (let p = absorption_detector.pending d in
      case pending.footprint p of
        None \<Rightarrow> Inl TypeError
      | Some fp \<Rightarrow>
          (case pending.candle p of
             None \<Rightarrow> Inl TypeError
           | Some c \<Rightarrow>
               Inr \<lparr>sweptLevels = sort (map price sw),
                    sweptCount = cnt,
                    swingLevel = lvl,
                    signal_data.sweepPrice = pending.sweepPrice p,
                    signal_data.delta = footprint.delta fp,
                    signal_data.totalVolume = footprint.totalVolume fp,
                    signal_data.avgVolume = avgVolume (stats d),
                    signal_data.avgAbsDelta = avgAbsDelta (stats d),
                    signal_data.poc = footprint.poc fp,
                    candleClose = close c,
                    volumeMultiple =
                      js_div (footprint.totalVolume fp) (avgVolume (stats d)),
                    deltaMultiple =
                      js_div \<bar>footprint.delta fp\<bar> (avgAbsDelta (stats d)),
                    signal_data.candle = c,
                    signal_data.footprint = fp,
                    sweptLowsInfo = sweptLows p,
                    sweptHighsInfo = sweptHighs p\<rparr>))"

definition buildResult :: "absorption_detector \<Rightarrow> string \<Rightarrow> error + signal" where
  "buildResult d ty =
     (let p = absorption_detector.pending d in
      if ty = ''SHORT''
      then (case sweptHighs p of
              None \<Rightarrow> Inl TypeError
            | Some sweptInfo \<Rightarrow>
                (case resultData d (swept sweptInfo) (count sweptInfo) (highestLevel sweptInfo) of
                   Inl err \<Rightarrow> Inl err
                 | Inr dt \<Rightarrow> Inr \<lparr>sig_type = ty, sig_data = dt\<rparr>))
      else (case sweptLows p of
              None \<Rightarrow> Inl TypeError
            | Some sweptInfo \<Rightarrow>
                (case resultData d (swept sweptInfo) (count sweptInfo)
                        (highestSweptLevel sweptInfo) of
                   Inl err \<Rightarrow> Inl err
                 | Inr dt \<Rightarrow> Inr \<lparr>sig_type = ty, sig_data = dt\<rparr>)))"

text \<open>
  \<open>checkCandle\<close> returns \<open>{ type: null }\<close> on every path; the result is paired
  with the detector after the call.
\<close>

definition checkCandle ::
  "alert_config \<Rightarrow> absorption_detector \<Rightarrow> candle \<Rightarrow> footprint option \<Rightarrow> swept_lows \<Rightarrow>
     swept_highs \<Rightarrow> signal option \<times> absorption_detector" where
  "checkCandle cfg d c fpo sl sh =
     (case fpo of
        None \<Rightarrow> (None, d)
      | Some fp \<Rightarrow>
          if \<not> isReady (stats d) then (None, d)
          else
            let avgVol = avgVolume (stats d);
                avgAbsD = avgAbsDelta (stats d);
                shortBranch =
                  (if int (count sh) \<ge> minLevelsSwept d
                   then (let deltaSpike = footprint.delta fp > avgAbsD * deltaMultiplier cfg;
                             volSpike = footprint.totalVolume fp > avgVol * volumeMultiplier cfg;
                             closeBelowPOC = close c < footprint.poc fp
                         in deltaSpike \<and> volSpike \<and> closeBelowPOC)
                   else False)
            in if shortBranch
               then (None,
                     d\<lparr>pending :=
                         \<lparr>state = SHORT, candle = Some c, footprint = Some fp,
                          sweptLows = None, sweptHighs = Some sh,
                          sweepPrice = Some (high c), confirmCount = 0\<rparr>\<rparr>)
               else
                 let longBranch =
                       (if int (count sl) \<ge> minLevelsSwept d
                        then (let deltaSpike =
                                    footprint.delta fp < - (avgAbsD * deltaMultiplier cfg);
                                  volSpike =
                                    footprint.totalVolume fp > avgVol * volumeMultiplier cfg;
                                  closeAbovePOC = close c > footprint.poc fp
                              in deltaSpike \<and> volSpike \<and> closeAbovePOC)
                        else False)
                 in if longBranch
                    then (None,
                          d\<lparr>pending :=
                              \<lparr>state = LONG, candle = Some c, footprint = Some fp,
                               sweptLows = Some sl, sweptHighs = None,
                               sweepPrice = Some (low c), confirmCount = 0\<rparr>\<rparr>)
                    else (None, d))"

text \<open>\<open>this.pending.confirmCount++\<close>\<close>

definition incConfirmCount :: "absorption_detector \<Rightarrow> absorption_detector" where
  "incConfirmCount d =
     d\<lparr>pending := (absorption_detector.pending d)
          \<lparr>confirmCount := confirmCount (absorption_detector.pending d) + 1\<rparr>\<rparr>"

text \<open>
  The \<open>return\<close> statements of \<open>checkConfirmation\<close>, in the order of the source;
  the last two are the end of the function, after the check of
  \<open>maxConfirmCandles\<close> has cleared the candidate or has not.
\<close>

datatype exit_point =
    ReturnIdle
  | ReturnShortCancelled
  | ReturnShortConfirmed
  | ReturnLongCancelled
  | ReturnLongConfirmed
  | ReturnLimitCancelled
  | ReturnStillPending

definition checkConfirmation_at ::
  "absorption_detector \<Rightarrow> candle \<Rightarrow> footprint option \<Rightarrow>
     error + (exit_point \<times> signal option \<times> absorption_detector)" where
  "checkConfirmation_at d c fpo =
     (if state (absorption_detector.pending d) = NONE then Inr (ReturnIdle, None, d)
      else
        let d1 = incConfirmCount d in
        if state (absorption_detector.pending d1) = SHORT
        then (if high c > js_num (pending.sweepPrice (absorption_detector.pending d1))
              then Inr (ReturnShortCancelled, None, clearPending d1)
              else (case buildResult d1 ''SHORT'' of
                      Inl err \<Rightarrow> Inl err
                    | Inr res \<Rightarrow> Inr (ReturnShortConfirmed, Some res, clearPending d1)))
        else if state (absorption_detector.pending d1) = LONG
        then (if low c < js_num (pending.sweepPrice (absorption_detector.pending d1))
              then Inr (ReturnLongCancelled, None, clearPending d1)
              else (case buildResult d1 ''LONG'' of
                      Inl err \<Rightarrow> Inl err
                    | Inr res \<Rightarrow> Inr (ReturnLongConfirmed, Some res, clearPending d1)))
        else if confirmCount (absorption_detector.pending d1) \<ge> maxConfirmCandles d1
        then Inr (ReturnLimitCancelled, None, clearPending d1)
        else Inr (ReturnStillPending, None, d1))"

text \<open>\<open>checkConfirmation\<close> itself: the returned object and the detector after the call.\<close>

definition checkConfirmation ::
  "absorption_detector \<Rightarrow> candle \<Rightarrow> footprint option \<Rightarrow>
     error + (signal option \<times> absorption_detector)" where
  "checkConfirmation d c fpo = map_sum id snd (checkConfirmation_at d c fpo)"

section \<open>services/AlertService.js and services/Bot.js\<close>





section \<open>Predicates and sample inputs of the statements\<close>


definition trade :: "real \<Rightarrow> real \<Rightarrow> bool \<Rightarrow> agg_trade" where
  "trade p q m = \<lparr>msg_e = ''aggTrade'', msg_p = p, msg_q = q, msg_m = m\<rparr>"



text \<open>The default of \<open>config.footprint.priceClusterSize\<close>.\<close>

definition priceClusterSize_default :: real where
  "priceClusterSize_default = 0.5"

text \<open>Two trades of equal volume at two price levels, the higher level first.\<close>

definition tie_trades :: "agg_trade list" where
  "tie_trades = [trade 100.4 1 True, trade 100.0 1 False]"

definition tie_footprint :: footprint where
  "tie_footprint =
     \<lparr>footprint.clusters =
        [\<lparr>cluster.price = 100, buyVolume = 1, sellVolume = 0, cluster.totalVolume = 1,
           cluster.delta = 1\<rparr>,
         \<lparr>cluster.price = 100.5, buyVolume = 0, sellVolume = 1, cluster.totalVolume = 1,
           cluster.delta = - 1\<rparr>],
      poc = 100, pocVolume = 1, footprint.totalBuyVolume = 1,
      footprint.totalSellVolume = 1, footprint.totalVolume = 2, footprint.delta = 0,
      topClusterVolume = 1, bottomClusterVolume = 1, footprint.tradeCount = 2\<rparr>"

text \<open>A detector whose two pools hold three pivots each.\<close>

definition sample_pools :: swing_detector where
  "sample_pools =
     \<lparr>lookback = 2, maxPoolSize = 8,
      swingHighPool =
        [\<lparr>price = 103, time = 900000, idx = 2\<rparr>, \<lparr>price = 100, time = 1800000, idx = 3\<rparr>,
         \<lparr>price = 101, time = 2700000, idx = 4\<rparr>],
      swingLowPool =
        [\<lparr>price = 90, time = 900000, idx = 2\<rparr>, \<lparr>price = 95, time = 1800000, idx = 3\<rparr>,
         \<lparr>price = 93, time = 2700000, idx = 4\<rparr>]\<rparr>"




text \<open>A fifteen-minute candle of which only the time, the high and the low matter.\<close>

definition bar :: "int \<Rightarrow> real \<Rightarrow> real \<Rightarrow> candle15m" where
  "bar t h l =
     \<lparr>openTime = t, open_price = l, high = h, low = l, close = h, volume = 1,
      windowId = t div 900000, count = 15\<rparr>"




text \<open>
  The coarse buckets in the words of the specification. The window id of a
  base bucket is \<open>floor(openTime / coarseWindowLength)\<close>, a window of fifteen
  minutes in milliseconds. \<open>runs\<close> cuts a sequence of base buckets, in arrival
  order, into its maximal runs of buckets that follow one another with the
  same window id. \<open>coarse\<close> is the fold of one run: first open, greatest high,
  least low, last close, summed volume, number of members.
\<close>

definition windowOf :: "candle \<Rightarrow> int" where
  "windowOf c = \<lfloor>real_of_int (openTime c) / (15 * 60 * 1000)\<rfloor>"

fun runs :: "candle list \<Rightarrow> candle list list" where
  "runs [] = []"
| "runs (c # cs) =
     (case runs cs of
        [] \<Rightarrow> [[c]]
      | r # rs \<Rightarrow> if windowOf c = windowOf (hd r) then (c # r) # rs else [c] # r # rs)"

definition coarse :: "candle list \<Rightarrow> candle15m" where
  "coarse r =
     \<lparr>openTime = openTime (hd r), open_price = open_price (hd r),
      high = Max (set (map high r)), low = Min (set (map low r)),
      close = close (last r), volume = sum_list (map volume r),
      windowId = windowOf (hd r), count = length r\<rparr>"

text \<open>A one-minute candle of which the time, the prices and the volume are given.\<close>

definition minute :: "int \<Rightarrow> real \<Rightarrow> real \<Rightarrow> real \<Rightarrow> real \<Rightarrow> real \<Rightarrow> candle" where
  "minute t o' h l c v =
     \<lparr>openTime = t, open_price = o', high = h, low = l, close = c, volume = v,
      closeTime = t + 59999, isClosed = True\<rparr>"

text \<open>Two minutes of the window 0 and one minute of the window 1.\<close>

definition three_minutes :: "candle list" where
  "three_minutes =
     [minute 0 100 102 99 101 5, minute 60000 101 104 100 103 7,
      minute 900000 103 105 102 104 4]"

text \<open>
  The conditions of candidacy in the words of the specification, and the
  candidate that each of them registers.
\<close>

definition shortCandidate ::
  "alert_config \<Rightarrow> absorption_detector \<Rightarrow> candle \<Rightarrow> footprint \<Rightarrow> swept_highs \<Rightarrow> bool" where
  "shortCandidate cfg d c fp sh \<longleftrightarrow>
     int (swept_info.count sh) \<ge> minLevelsSwept d \<and>
     footprint.delta fp > avgAbsDelta (stats d) * deltaMultiplier cfg \<and>
     footprint.totalVolume fp > avgVolume (stats d) * volumeMultiplier cfg \<and>
     close c < footprint.poc fp"

definition longCandidate ::
  "alert_config \<Rightarrow> absorption_detector \<Rightarrow> candle \<Rightarrow> footprint \<Rightarrow> swept_lows \<Rightarrow> bool" where
  "longCandidate cfg d c fp sl \<longleftrightarrow>
     int (swept_info.count sl) \<ge> minLevelsSwept d \<and>
     footprint.delta fp < - (avgAbsDelta (stats d) * deltaMultiplier cfg) \<and>
     footprint.totalVolume fp > avgVolume (stats d) * volumeMultiplier cfg \<and>
     close c > footprint.poc fp"

definition shortPending :: "candle \<Rightarrow> footprint \<Rightarrow> swept_highs \<Rightarrow> pending" where
  "shortPending c fp sh =
     \<lparr>state = SHORT, candle = Some c, footprint = Some fp, sweptLows = None,
      sweptHighs = Some sh, sweepPrice = Some (high c), confirmCount = 0\<rparr>"

definition longPending :: "candle \<Rightarrow> footprint \<Rightarrow> swept_lows \<Rightarrow> pending" where
  "longPending c fp sl =
     \<lparr>state = LONG, candle = Some c, footprint = Some fp, sweptLows = Some sl,
      sweptHighs = None, sweepPrice = Some (low c), confirmCount = 0\<rparr>"

text \<open>
  Sample inputs: the multipliers of the default configuration, a detector
  whose window of size 2 holds one sample (volume 10, absolute delta 2), a
  footprint with a buying spike and one with a selling spike, and candles
  that sweep the pools of \<open>sample_pools\<close>.
\<close>

definition default_alert :: alert_config where
  "default_alert = \<lparr>deltaMultiplier = 2, volumeMultiplier = 1.5\<rparr>"

definition ready_detector :: absorption_detector where
  "ready_detector = updateStats (AbsorptionDetector_new 2 2) 10 (- 2)"

definition spike :: "real \<Rightarrow> real \<Rightarrow> real \<Rightarrow> footprint" where
  "spike buy sell pc =
     \<lparr>footprint.clusters =
        [\<lparr>cluster.price = pc, buyVolume = buy, sellVolume = sell,
          cluster.totalVolume = buy + sell, cluster.delta = buy - sell\<rparr>],
      poc = pc, pocVolume = buy + sell, footprint.totalBuyVolume = buy,
      footprint.totalSellVolume = sell, footprint.totalVolume = buy + sell,
      footprint.delta = buy - sell, topClusterVolume = buy + sell,
      bottomClusterVolume = buy + sell, footprint.tradeCount = 2\<rparr>"

definition up_sweep :: candle where
  "up_sweep = minute 3600000 101 102 100 100.5 20"

definition down_sweep :: candle where
  "down_sweep = minute 3660000 95 96 92 95 20"

text \<open>
  A candidate with sweep price 105 (scenarios C and D of the specification):
  the candle \<open>sweep105\<close> takes the three highs of \<open>sample_pools\<close> on a buying
  spike and closes below the point of control.
\<close>

definition sweep105 :: candle where
  "sweep105 = minute 3600000 101 105 100 100.5 20"

definition short_pending_detector :: absorption_detector where
  "short_pending_detector =
     snd (checkCandle default_alert ready_detector sweep105 (Some (spike 13 7 101))
            (getSweptLows sample_pools (low sweep105))
            (getSweptHighs sample_pools (high sweep105)))"

text \<open>The candles that follow it: a higher high, a lower high and an equal high.\<close>

definition next_high :: "real \<Rightarrow> candle" where
  "next_high h = minute 3660000 100.5 h 100 100.2 3"

text \<open>
  The calls that a client makes on the detector, and the detector after a
  sequence of them; a thrown \<open>TypeError\<close> ends the sequence.
\<close>

datatype call =
    UpdateStats real real
  | CheckCandle candle "footprint option" swept_lows swept_highs
  | CheckConfirmation candle "footprint option"

fun call_step :: "alert_config \<Rightarrow> absorption_detector \<Rightarrow> call \<Rightarrow> error + absorption_detector" where
  "call_step cfg d (UpdateStats tv dl) = Inr (updateStats d tv dl)"
| "call_step cfg d (CheckCandle c fpo sl sh) = Inr (snd (checkCandle cfg d c fpo sl sh))"
| "call_step cfg d (CheckConfirmation c fpo) = map_sum id snd (checkConfirmation d c fpo)"

fun calls :: "alert_config \<Rightarrow> absorption_detector \<Rightarrow> call list \<Rightarrow> error + absorption_detector" where
  "calls cfg d [] = Inr d"
| "calls cfg d (x # xs) =
     (case call_step cfg d x of Inl err \<Rightarrow> Inl err | Inr d' \<Rightarrow> calls cfg d' xs)"

text \<open>
  What holds of the detector between two calls: the counter is 0, the limit is
  2, and a pending candidate carries its candle, its footprint, its sweep
  price and the swept pivots of its side.
\<close>

definition candidate_inv :: "absorption_detector \<Rightarrow> bool" where
  "candidate_inv d \<longleftrightarrow>
     confirmCount (pending d) = 0 \<and> maxConfirmCandles d = 2 \<and>
     (state (pending d) \<noteq> NONE \<longrightarrow>
        pending.candle (pending d) \<noteq> None \<and> pending.footprint (pending d) \<noteq> None \<and>
        pending.sweepPrice (pending d) \<noteq> None) \<and>
     (state (pending d) = SHORT \<longrightarrow> sweptHighs (pending d) \<noteq> None) \<and>
     (state (pending d) = LONG \<longrightarrow> sweptLows (pending d) \<noteq> None)"

text \<open>A selling spike on a candle that takes two lows of \<open>sample_pools\<close>.\<close>

definition sweep92 :: candle where
  "sweep92 = minute 3660000 95 96 92 95 20"



text \<open>
  The equations of the three loops are recursive without a pattern; they are
  unfolded by name where a proof needs them.
\<close>

declare swingHighLoop.simps [simp del] swingLowLoop.simps [simp del] shiftWhile.simps [simp del]

section \<open>Footprint: the totals of a snapshot\<close>




lemma reset_new: "reset eng = FootprintEngine_new"
  by (simp add: reset_def FootprintEngine_new_def)









section \<open>Footprint: the point of control\<close>

lemma foldl_pocStep:
  "foldl pocStep m xs = r \<Longrightarrow>
     (r = m \<and> (\<forall>x\<in>set xs. cluster.totalVolume x \<le> cluster.totalVolume m)) \<or>
     (\<exists>ys zs. xs = ys @ r # zs \<and> cluster.totalVolume m < cluster.totalVolume r \<and>
        (\<forall>y\<in>set ys. cluster.totalVolume y < cluster.totalVolume r) \<and>
        (\<forall>z\<in>set zs. cluster.totalVolume z \<le> cluster.totalVolume r))"
proof (induction xs arbitrary: m)
  case Nil
  then show ?case by simp
next
  case (Cons x xs)
  show ?case
  proof (cases "cluster.totalVolume x > cluster.totalVolume m")
    case True
    then have "pocStep m x = x" by (simp add: pocStep_def)
    with Cons.prems have "foldl pocStep x xs = r" by simp
    from Cons.IH [OF this] show ?thesis
    proof
      assume "r = x \<and> (\<forall>x'\<in>set xs. cluster.totalVolume x' \<le> cluster.totalVolume x)"
      with True have "x # xs = [] @ r # xs \<and> cluster.totalVolume m < cluster.totalVolume r \<and>
        (\<forall>y\<in>set []. cluster.totalVolume y < cluster.totalVolume r) \<and>
        (\<forall>z\<in>set xs. cluster.totalVolume z \<le> cluster.totalVolume r)"
        by simp
      then show ?thesis by blast
    next
      assume "\<exists>ys zs. xs = ys @ r # zs \<and> cluster.totalVolume x < cluster.totalVolume r \<and>
        (\<forall>y\<in>set ys. cluster.totalVolume y < cluster.totalVolume r) \<and>
        (\<forall>z\<in>set zs. cluster.totalVolume z \<le> cluster.totalVolume r)"
      then obtain ys zs where h: "xs = ys @ r # zs" "cluster.totalVolume x < cluster.totalVolume r"
        "\<forall>y\<in>set ys. cluster.totalVolume y < cluster.totalVolume r"
        "\<forall>z\<in>set zs. cluster.totalVolume z \<le> cluster.totalVolume r"
        by blast
      with True have "x # xs = (x # ys) @ r # zs \<and> cluster.totalVolume m < cluster.totalVolume r \<and>
        (\<forall>y\<in>set (x # ys). cluster.totalVolume y < cluster.totalVolume r) \<and>
        (\<forall>z\<in>set zs. cluster.totalVolume z \<le> cluster.totalVolume r)"
        by auto
      then show ?thesis by blast
    qed
  next
    case False
    then have "pocStep m x = m" by (simp add: pocStep_def)
    with Cons.prems have "foldl pocStep m xs = r" by simp
    from Cons.IH [OF this] show ?thesis
    proof
      assume "r = m \<and> (\<forall>x'\<in>set xs. cluster.totalVolume x' \<le> cluster.totalVolume m)"
      with False show ?thesis by auto
    next
      assume "\<exists>ys zs. xs = ys @ r # zs \<and> cluster.totalVolume m < cluster.totalVolume r \<and>
        (\<forall>y\<in>set ys. cluster.totalVolume y < cluster.totalVolume r) \<and>
        (\<forall>z\<in>set zs. cluster.totalVolume z \<le> cluster.totalVolume r)"
      then obtain ys zs where h: "xs = ys @ r # zs" "cluster.totalVolume m < cluster.totalVolume r"
        "\<forall>y\<in>set ys. cluster.totalVolume y < cluster.totalVolume r"
        "\<forall>z\<in>set zs. cluster.totalVolume z \<le> cluster.totalVolume r"
        by blast
      with False have "x # xs = (x # ys) @ r # zs \<and> cluster.totalVolume m < cluster.totalVolume r \<and>
        (\<forall>y\<in>set (x # ys). cluster.totalVolume y < cluster.totalVolume r) \<and>
        (\<forall>z\<in>set zs. cluster.totalVolume z \<le> cluster.totalVolume r)"
        by auto
      then show ?thesis by blast
    qed
  qed
qed

lemma first_maximum:
  assumes "xs \<noteq> []"
  shows "\<exists>ys zs. xs = ys @ foldl pocStep (hd xs) xs # zs \<and>
        (\<forall>y\<in>set ys. cluster.totalVolume y < cluster.totalVolume (foldl pocStep (hd xs) xs)) \<and>
        (\<forall>z\<in>set zs. cluster.totalVolume z \<le> cluster.totalVolume (foldl pocStep (hd xs) xs))"
proof -
  from assms obtain x xs' where xs: "xs = x # xs'" by (cases xs) auto
  define r where "r = foldl pocStep (hd xs) xs"
  have "pocStep x x = x" by (simp add: pocStep_def)
  then have "foldl pocStep x xs' = r" by (simp add: r_def xs)
  from foldl_pocStep [OF this] show ?thesis
  proof
    assume "r = x \<and> (\<forall>x'\<in>set xs'. cluster.totalVolume x' \<le> cluster.totalVolume x)"
    then have "xs = [] @ r # xs' \<and> (\<forall>y\<in>set []. cluster.totalVolume y < cluster.totalVolume r) \<and>
       (\<forall>z\<in>set xs'. cluster.totalVolume z \<le> cluster.totalVolume r)" by (simp add: xs)
    then show ?thesis unfolding r_def by blast
  next
    assume "\<exists>ys zs. xs' = ys @ r # zs \<and> cluster.totalVolume x < cluster.totalVolume r \<and>
        (\<forall>y\<in>set ys. cluster.totalVolume y < cluster.totalVolume r) \<and>
        (\<forall>z\<in>set zs. cluster.totalVolume z \<le> cluster.totalVolume r)"
    then obtain ys zs where h: "xs' = ys @ r # zs" "cluster.totalVolume x < cluster.totalVolume r"
        "\<forall>y\<in>set ys. cluster.totalVolume y < cluster.totalVolume r"
        "\<forall>z\<in>set zs. cluster.totalVolume z \<le> cluster.totalVolume r"
      by blast
    then have "xs = (x # ys) @ r # zs \<and>
       (\<forall>y\<in>set (x # ys). cluster.totalVolume y < cluster.totalVolume r) \<and>
       (\<forall>z\<in>set zs. cluster.totalVolume z \<le> cluster.totalVolume r)" by (simp add: xs)
    then show ?thesis unfolding r_def by blast
  qed
qed

text \<open>
  C6. For a non-empty set of clusters, \<open>calculate\<close> takes for point of control the
  first cluster of maximal \<open>totalVolume\<close> in the array sorted by ascending price:
  every cluster before it has strictly less volume, none has more, and a
  cluster of equal volume does not have a lower price.
\<close>

theorem poc_first_maximum_ascending:
  assumes "footprint_engine.clusters eng \<noteq> []"
  shows "\<exists>fp ys c zs. calculate eng = Some fp \<and>
           footprint.clusters fp = sort_key cluster.price (map snd (footprint_engine.clusters eng)) \<and>
           sorted (map cluster.price (footprint.clusters fp)) \<and>
           footprint.clusters fp = ys @ c # zs \<and>
           footprint.poc fp = cluster.price c \<and> pocVolume fp = cluster.totalVolume c \<and>
           (\<forall>y\<in>set ys. cluster.totalVolume y < cluster.totalVolume c) \<and>
           (\<forall>z\<in>set zs. cluster.totalVolume z \<le> cluster.totalVolume c) \<and>
           (\<forall>c'\<in>set (footprint.clusters fp). cluster.totalVolume c' \<le> cluster.totalVolume c) \<and>
           (\<forall>c'\<in>set (footprint.clusters fp).
               cluster.totalVolume c' = cluster.totalVolume c \<longrightarrow> cluster.price c \<le> cluster.price c')"
proof -
  define arr where "arr = sort_key cluster.price (map snd (footprint_engine.clusters eng))"
  define c where "c = foldl pocStep (hd arr) arr"
  have ne: "arr \<noteq> []" using assms by (auto simp: arr_def dest: arg_cong [where f = length])
  from first_maximum [OF ne] obtain ys zs where dec: "arr = ys @ c # zs"
    and lt: "\<forall>y\<in>set ys. cluster.totalVolume y < cluster.totalVolume c"
    and le: "\<forall>z\<in>set zs. cluster.totalVolume z \<le> cluster.totalVolume c"
    unfolding c_def by blast
  have srt: "sorted (map cluster.price arr)" by (simp add: arr_def)
  have ties: "\<forall>c'\<in>set arr. cluster.totalVolume c' = cluster.totalVolume c \<longrightarrow>
      cluster.price c \<le> cluster.price c'"
    using srt lt unfolding dec by (auto simp: sorted_append)
  have mx: "\<forall>c'\<in>set arr. cluster.totalVolume c' \<le> cluster.totalVolume c"
    using lt le unfolding dec by auto
  define fp where "fp = the (calculate eng)"
  have calc: "calculate eng = Some fp" "footprint.clusters fp = arr"
    "footprint.poc fp = cluster.price c" "pocVolume fp = cluster.totalVolume c"
    using assms by (simp_all add: fp_def calculate_def Let_def arr_def c_def)
  have "calculate eng = Some fp \<and>
           footprint.clusters fp = sort_key cluster.price (map snd (footprint_engine.clusters eng)) \<and>
           sorted (map cluster.price (footprint.clusters fp)) \<and>
           footprint.clusters fp = ys @ c # zs \<and>
           footprint.poc fp = cluster.price c \<and> pocVolume fp = cluster.totalVolume c \<and>
           (\<forall>y\<in>set ys. cluster.totalVolume y < cluster.totalVolume c) \<and>
           (\<forall>z\<in>set zs. cluster.totalVolume z \<le> cluster.totalVolume c) \<and>
           (\<forall>c'\<in>set (footprint.clusters fp). cluster.totalVolume c' \<le> cluster.totalVolume c) \<and>
           (\<forall>c'\<in>set (footprint.clusters fp).
               cluster.totalVolume c' = cluster.totalVolume c \<longrightarrow> cluster.price c \<le> cluster.price c')"
    unfolding calc using dec lt le ties mx srt by (simp add: arr_def [symmetric])
  then show ?thesis by blast
qed

lemma tie_calculate: "calculate (ingest priceClusterSize_default tie_trades) = Some tie_footprint"
  by (simp add: calculate_def ingest_def handleTrade_def trade_def snapToCluster_def
      Math_round_def FootprintEngine_new_def Let_def newCluster_def pocStep_def
      tie_trades_def tie_footprint_def priceClusterSize_default_def)

lemma tie_nonempty: "footprint_engine.clusters (ingest priceClusterSize_default tie_trades) \<noteq> []"
  by (simp add: ingest_def handleTrade_def trade_def Let_def tie_trades_def)

theorem poc_first_maximum_ascending_witness:
  "footprint_engine.clusters (ingest priceClusterSize_default tie_trades) \<noteq> [] \<and>
   calculate (ingest priceClusterSize_default tie_trades) = Some tie_footprint \<and>
   footprint.poc tie_footprint = 100 \<and>
   map cluster.price (footprint.clusters tie_footprint) = [100, 100.5] \<and>
   map cluster.totalVolume (footprint.clusters tie_footprint) = [1, 1] \<and>
   (\<exists>ys c zs. footprint.clusters tie_footprint = ys @ c # zs \<and>
      footprint.poc tie_footprint = cluster.price c \<and>
      (\<forall>y\<in>set ys. cluster.totalVolume y < cluster.totalVolume c) \<and>
      (\<forall>c'\<in>set (footprint.clusters tie_footprint).
          cluster.totalVolume c' = cluster.totalVolume c \<longrightarrow> cluster.price c \<le> cluster.price c'))"
proof -
  from poc_first_maximum_ascending [OF tie_nonempty]
  obtain fp ys c zs where fp: "calculate (ingest priceClusterSize_default tie_trades) = Some fp"
    and rest: "footprint.clusters fp = ys @ c # zs" "footprint.poc fp = cluster.price c"
      "\<forall>y\<in>set ys. cluster.totalVolume y < cluster.totalVolume c"
      "\<forall>c'\<in>set (footprint.clusters fp).
          cluster.totalVolume c' = cluster.totalVolume c \<longrightarrow> cluster.price c \<le> cluster.price c'"
    by blast
  from fp have eq: "fp = tie_footprint" by (simp add: tie_calculate)
  have vals: "footprint.poc tie_footprint = 100"
    "map cluster.price (footprint.clusters tie_footprint) = [100, 100.5]"
    "map cluster.totalVolume (footprint.clusters tie_footprint) = [1, 1]"
    by (simp_all add: tie_footprint_def)
  from rest [unfolded eq] tie_nonempty tie_calculate vals show ?thesis by blast
qed

section \<open>Swing pools: the sweep queries\<close>

lemma Math_max_eq: "xs \<noteq> [] \<Longrightarrow> Math_max xs = Max (set xs)"
proof (cases xs)
  case (Cons a list)
  then show ?thesis
    unfolding Math_max_def using Max.set_eq_fold [of a list] by simp
qed simp

lemma Math_min_eq: "xs \<noteq> [] \<Longrightarrow> Math_min xs = Min (set xs)"
proof (cases xs)
  case (Cons a list)
  then show ?thesis
    unfolding Math_min_def using Min.set_eq_fold [of a list] by simp
qed simp

lemma getSweptHighs_swept:
  "swept (getSweptHighs sd x) = filter (\<lambda>s. pivot.price s < x) (swingHighPool sd)"
  by (simp add: getSweptHighs_def Let_def)

lemma getSweptLows_swept:
  "swept (getSweptLows sd x) = filter (\<lambda>s. x < pivot.price s) (swingLowPool sd)"
  by (simp add: getSweptLows_def Let_def)

text \<open>
  C7. \<open>getSweptHighs x\<close> returns exactly the pivots of the high pool whose price
  is strictly below \<open>x\<close>, in pool order, with their number and, when there is
  one, the least and the greatest price among them; a larger \<open>x\<close> only adds
  members. \<open>getSweptLows\<close> is the mirror, with the price strictly above \<open>x\<close>.
\<close>

theorem swept_queries:
  "swept (getSweptHighs sd x) = filter (\<lambda>s. pivot.price s < x) (swingHighPool sd) \<and>
   set (swept (getSweptHighs sd x)) = {s \<in> set (swingHighPool sd). pivot.price s < x} \<and>
   swept_info.count (getSweptHighs sd x) = length (swept (getSweptHighs sd x)) \<and>
   lowestSweptLevel (getSweptHighs sd x) =
     (if swept (getSweptHighs sd x) = [] then None
      else Some (Min (pivot.price ` set (swept (getSweptHighs sd x))))) \<and>
   highestLevel (getSweptHighs sd x) =
     (if swept (getSweptHighs sd x) = [] then None
      else Some (Max (pivot.price ` set (swept (getSweptHighs sd x))))) \<and>
   (x \<le> y \<longrightarrow>
      set (swept (getSweptHighs sd x)) \<subseteq> set (swept (getSweptHighs sd y)) \<and>
      swept (getSweptHighs sd x) = filter (\<lambda>s. pivot.price s < x) (swept (getSweptHighs sd y))) \<and>
   swept (getSweptLows sd x) = filter (\<lambda>s. x < pivot.price s) (swingLowPool sd) \<and>
   set (swept (getSweptLows sd x)) = {s \<in> set (swingLowPool sd). x < pivot.price s} \<and>
   swept_info.count (getSweptLows sd x) = length (swept (getSweptLows sd x)) \<and>
   deepestLevel (getSweptLows sd x) =
     (if swept (getSweptLows sd x) = [] then None
      else Some (Min (pivot.price ` set (swept (getSweptLows sd x))))) \<and>
   highestSweptLevel (getSweptLows sd x) =
     (if swept (getSweptLows sd x) = [] then None
      else Some (Max (pivot.price ` set (swept (getSweptLows sd x))))) \<and>
   (y \<le> x \<longrightarrow>
      set (swept (getSweptLows sd x)) \<subseteq> set (swept (getSweptLows sd y)) \<and>
      swept (getSweptLows sd x) = filter (\<lambda>s. x < pivot.price s) (swept (getSweptLows sd y)))"
proof -
  have h1: "set (swept (getSweptHighs sd x)) = {s \<in> set (swingHighPool sd). pivot.price s < x}"
    by (auto simp: getSweptHighs_swept)
  have h2: "swept_info.count (getSweptHighs sd x) = length (swept (getSweptHighs sd x))"
    by (simp add: getSweptHighs_def Let_def)
  have h3: "lowestSweptLevel (getSweptHighs sd x) =
     (if swept (getSweptHighs sd x) = [] then None
      else Some (Min (pivot.price ` set (swept (getSweptHighs sd x)))))"
    by (simp add: getSweptHighs_def Let_def Math_min_eq)
  have h4: "highestLevel (getSweptHighs sd x) =
     (if swept (getSweptHighs sd x) = [] then None
      else Some (Max (pivot.price ` set (swept (getSweptHighs sd x)))))"
    by (simp add: getSweptHighs_def Let_def Math_max_eq)
  have h5: "x \<le> y \<longrightarrow>
      set (swept (getSweptHighs sd x)) \<subseteq> set (swept (getSweptHighs sd y)) \<and>
      swept (getSweptHighs sd x) = filter (\<lambda>s. pivot.price s < x) (swept (getSweptHighs sd y))"
  proof
    assume le: "x \<le> y"
    have "filter (\<lambda>s. pivot.price s < x) (filter (\<lambda>s. pivot.price s < y) ps) =
          filter (\<lambda>s. pivot.price s < x) ps" for ps :: "pivot list"
      using le by (induction ps) auto
    then show "set (swept (getSweptHighs sd x)) \<subseteq> set (swept (getSweptHighs sd y)) \<and>
      swept (getSweptHighs sd x) = filter (\<lambda>s. pivot.price s < x) (swept (getSweptHighs sd y))"
      using le by (auto simp: getSweptHighs_swept)
  qed
  have l1: "set (swept (getSweptLows sd x)) = {s \<in> set (swingLowPool sd). x < pivot.price s}"
    by (auto simp: getSweptLows_swept)
  have l2: "swept_info.count (getSweptLows sd x) = length (swept (getSweptLows sd x))"
    by (simp add: getSweptLows_def Let_def)
  have l3: "deepestLevel (getSweptLows sd x) =
     (if swept (getSweptLows sd x) = [] then None
      else Some (Min (pivot.price ` set (swept (getSweptLows sd x)))))"
    by (simp add: getSweptLows_def Let_def Math_min_eq)
  have l4: "highestSweptLevel (getSweptLows sd x) =
     (if swept (getSweptLows sd x) = [] then None
      else Some (Max (pivot.price ` set (swept (getSweptLows sd x)))))"
    by (simp add: getSweptLows_def Let_def Math_max_eq)
  have l5: "y \<le> x \<longrightarrow>
      set (swept (getSweptLows sd x)) \<subseteq> set (swept (getSweptLows sd y)) \<and>
      swept (getSweptLows sd x) = filter (\<lambda>s. x < pivot.price s) (swept (getSweptLows sd y))"
  proof
    assume le: "y \<le> x"
    have "filter (\<lambda>s. x < pivot.price s) (filter (\<lambda>s. y < pivot.price s) ps) =
          filter (\<lambda>s. x < pivot.price s) ps" for ps :: "pivot list"
      using le by (induction ps) auto
    then show "set (swept (getSweptLows sd x)) \<subseteq> set (swept (getSweptLows sd y)) \<and>
      swept (getSweptLows sd x) = filter (\<lambda>s. x < pivot.price s) (swept (getSweptLows sd y))"
      using le by (auto simp: getSweptLows_swept)
  qed
  show ?thesis
    using getSweptHighs_swept [of sd x] h1 h2 h3 h4 h5 getSweptLows_swept [of sd x] l1 l2 l3 l4 l5
    by blast
qed

theorem swept_queries_witness:
  "(102 :: real) \<le> 104 \<and>
   map pivot.price (swept (getSweptHighs sample_pools 102)) = [100, 101] \<and>
   map pivot.price (swept (getSweptHighs sample_pools 104)) = [103, 100, 101] \<and>
   swept_info.count (getSweptHighs sample_pools 102) = 2 \<and>
   lowestSweptLevel (getSweptHighs sample_pools 102) = Some 100 \<and>
   highestLevel (getSweptHighs sample_pools 102) = Some 101 \<and>
   set (swept (getSweptHighs sample_pools 102)) \<subseteq> set (swept (getSweptHighs sample_pools 104)) \<and>
   (92 :: real) \<le> 94 \<and>
   map pivot.price (swept (getSweptLows sample_pools 94)) = [95] \<and>
   map pivot.price (swept (getSweptLows sample_pools 92)) = [95, 93] \<and>
   set (swept (getSweptLows sample_pools 94)) \<subseteq> set (swept (getSweptLows sample_pools 92))"
proof -
  have vals: "map pivot.price (swept (getSweptHighs sample_pools 102)) = [100, 101]"
    "map pivot.price (swept (getSweptHighs sample_pools 104)) = [103, 100, 101]"
    "swept_info.count (getSweptHighs sample_pools 102) = 2"
    "lowestSweptLevel (getSweptHighs sample_pools 102) = Some 100"
    "highestLevel (getSweptHighs sample_pools 102) = Some 101"
    "map pivot.price (swept (getSweptLows sample_pools 94)) = [95]"
    "map pivot.price (swept (getSweptLows sample_pools 92)) = [95, 93]"
    by (simp_all add: getSweptHighs_def getSweptLows_def sample_pools_def Let_def
        Math_min_def Math_max_def)
  have hi: "set (swept (getSweptHighs sample_pools 102)) \<subseteq> set (swept (getSweptHighs sample_pools 104))"
  proof -
    have "(102 :: real) \<le> 104" by simp
    with swept_queries [of sample_pools 102 104] show ?thesis by blast
  qed
  have lo: "set (swept (getSweptLows sample_pools 94)) \<subseteq> set (swept (getSweptLows sample_pools 92))"
  proof -
    have "(92 :: real) \<le> 94" by simp
    with swept_queries [of sample_pools 94 92] show ?thesis by blast
  qed
  show ?thesis using vals hi lo by simp
qed

section \<open>Swing pools: confirmation of a pivot\<close>






lemma shiftWhile_drop: "shiftWhile mx pool = drop (length pool - mx) pool"
proof (induction mx pool rule: shiftWhile.induct)
  case (1 mx pool)
  show ?case
  proof (cases "length pool > mx")
    case True
    then obtain p ps where pool: "pool = p # ps" by (cases pool) auto
    have "shiftWhile mx pool = shiftWhile mx (tl pool)"
      using True by (subst shiftWhile.simps) simp
    also have "\<dots> = drop (length (tl pool) - mx) (tl pool)" using "1.IH" [OF True] .
    also have "\<dots> = drop (length pool - mx) pool"
      using True by (simp add: pool Suc_diff_le)
    finally show ?thesis .
  next
    case False
    then show ?thesis by (subst shiftWhile.simps) simp
  qed
qed








section \<open>Candle builder: the coarse buckets\<close>

lemma on1mClose_first:
  "current15m cb = None \<Longrightarrow>
     on1mClose cb c = (cb\<lparr>current15m := Some (create15mFrom1m c (windowOf c))\<rparr>, [Close1m c])"
  by (simp add: on1mClose_def windowOf_def Let_def)

lemma on1mClose_same:
  "current15m cb = Some cur \<Longrightarrow> windowOf c = windowId cur \<Longrightarrow>
     on1mClose cb c = (cb\<lparr>current15m := Some (update15m cur c)\<rparr>, [Close1m c])"
  by (simp add: on1mClose_def windowOf_def Let_def)

lemma on1mClose_other:
  "current15m cb = Some cur \<Longrightarrow> windowOf c \<noteq> windowId cur \<Longrightarrow>
     on1mClose cb c =
       ((fst (close15m cb cur))\<lparr>current15m := Some (create15mFrom1m c (windowOf c))\<rparr>,
        [Close1m c, Close15m cur])"
  by (simp add: on1mClose_def windowOf_def Let_def close15m_def)

lemma create_coarse: "create15mFrom1m c (windowOf c) = coarse [c]"
  by (simp add: create15mFrom1m_def coarse_def)

lemma update_coarse:
  assumes "pre \<noteq> []"
  shows "update15m (coarse pre) c = coarse (pre @ [c])"
proof -
  have "max (Max (set (map high pre))) (high c) = Max (set (map high (pre @ [c])))"
    using assms by (simp add: Max_insert max.commute)
  moreover have "min (Min (set (map low pre))) (low c) = Min (set (map low (pre @ [c])))"
    using assms by (simp add: Min_insert min.commute)
  moreover have "hd (pre @ [c]) = hd pre" using assms by simp
  ultimately show ?thesis
    by (simp add: update15m_def coarse_def)
qed

lemma runs_nonempty: "runs (c # cs) \<noteq> []"
  by (simp split: list.split)

lemma runs_hd: "hd (hd (runs (c # cs))) = c"
  by (simp split: list.split)

lemma runs_uniform:
  "pre \<noteq> [] \<Longrightarrow> \<forall>c\<in>set pre. windowOf c = w \<Longrightarrow> runs pre = [pre]"
proof (induction pre)
  case Nil
  then show ?case by simp
next
  case (Cons a pre)
  show ?case
  proof (cases pre)
    case Nil
    then show ?thesis by simp
  next
    case (Cons b pre')
    with Cons.IH Cons.prems have "runs pre = [pre]" by simp
    moreover have "windowOf a = windowOf (hd pre)" using Cons Cons.prems by simp
    ultimately show ?thesis by simp
  qed
qed

lemma runs_break:
  "pre \<noteq> [] \<Longrightarrow> \<forall>c\<in>set pre. windowOf c = w \<Longrightarrow> windowOf d \<noteq> w \<Longrightarrow>
     runs (pre @ d # cs) = pre # runs (d # cs)"
proof (induction pre)
  case Nil
  then show ?case by simp
next
  case (Cons a pre)
  obtain r rs where rr: "runs (d # cs) = r # rs" "hd r = d"
    using runs_nonempty [of d cs] runs_hd [of d cs] by (cases "runs (d # cs)") auto
  show ?case
  proof (cases pre)
    case Nil
    have "windowOf a \<noteq> windowOf d" using Cons.prems by simp
    then have "runs (a # d # cs) = [a] # runs (d # cs)"
      using rr by (simp del: runs.simps add: runs.simps(2) [of a])
    then show ?thesis using Nil by simp
  next
    case (Cons b pre')
    with Cons.IH Cons.prems have ih: "runs (pre @ d # cs) = pre # runs (d # cs)" by simp
    have "windowOf a = windowOf (hd pre)" using Cons Cons.prems by simp
    then have "runs (a # pre @ d # cs) = (a # pre) # runs (d # cs)"
      using ih by (simp del: runs.simps add: runs.simps(2) [of a])
    then show ?thesis by simp
  qed
qed

lemma runs_concat: "concat (runs cs) = cs"
  by (induction cs) (auto split: list.split)

lemma runs_members_aux:
  "\<forall>r\<in>set (runs cs). r \<noteq> [] \<and> (\<forall>c\<in>set r. windowOf (hd r) = windowOf c)"
proof (induction cs)
  case Nil
  then show ?case by simp
next
  case (Cons a cs)
  show ?case
  proof (cases "runs cs")
    case Nil
    then show ?thesis by simp
  next
    case rr: (Cons r rs)
    from Cons.IH rr have r: "r \<noteq> []" "\<forall>c\<in>set r. windowOf (hd r) = windowOf c"
      and rs: "\<forall>r'\<in>set rs. r' \<noteq> [] \<and> (\<forall>c\<in>set r'. windowOf (hd r') = windowOf c)"
      by simp_all
    show ?thesis
    proof (cases "windowOf a = windowOf (hd r)")
      case True
      then have "runs (a # cs) = (a # r) # rs" by (simp add: rr)
      then show ?thesis using r rs True by simp
    next
      case False
      then have "runs (a # cs) = [a] # r # rs" by (simp add: rr)
      then show ?thesis using r rs by simp
    qed
  qed
qed

lemma runs_members:
  "\<forall>r\<in>set (runs cs). r \<noteq> [] \<and> (\<forall>c\<in>set r. windowOf c = windowOf (hd r))"
  using runs_members_aux [of cs] by metis

lemma feed_open:
  assumes "pre \<noteq> []" and "\<forall>c\<in>set pre. windowOf c = w"
    and "current15m cb = Some (coarse pre)"
  shows "emitted15m (snd (feed cb cs)) = map coarse (butlast (runs (pre @ cs))) \<and>
         current15m (fst (feed cb cs)) = Some (coarse (last (runs (pre @ cs))))"
  using assms
proof (induction cs arbitrary: pre cb w)
  case Nil
  then show ?case using runs_uniform [of pre w] by simp
next
  case (Cons d cs)
  have wid: "windowId (coarse pre) = w"
    using Cons.prems by (cases pre) (simp_all add: coarse_def)
  show ?case
  proof (cases "windowOf d = w")
    case True
    let ?cb1 = "cb\<lparr>current15m := Some (update15m (coarse pre) d)\<rparr>"
    have step: "on1mClose cb d = (?cb1, [Close1m d])"
      using Cons.prems(3) True wid by (simp add: on1mClose_same)
    have cur: "current15m ?cb1 = Some (coarse (pre @ [d]))"
      using Cons.prems(1) by (simp add: update_coarse)
    have ih: "emitted15m (snd (feed ?cb1 cs)) = map coarse (butlast (runs ((pre @ [d]) @ cs))) \<and>
         current15m (fst (feed ?cb1 cs)) = Some (coarse (last (runs ((pre @ [d]) @ cs))))"
      by (rule Cons.IH [OF _ _ cur]) (use Cons.prems True in auto)
    then show ?thesis
      by (simp add: step case_prod_beta)
  next
    case False
    let ?cb1 = "(fst (close15m cb (coarse pre)))\<lparr>current15m := Some (create15mFrom1m d (windowOf d))\<rparr>"
    have step: "on1mClose cb d = (?cb1, [Close1m d, Close15m (coarse pre)])"
      using Cons.prems(3) False wid by (simp add: on1mClose_other)
    have cur: "current15m ?cb1 = Some (coarse [d])"
      by (simp add: create_coarse)
    have ih: "emitted15m (snd (feed ?cb1 cs)) = map coarse (butlast (runs ([d] @ cs))) \<and>
         current15m (fst (feed ?cb1 cs)) = Some (coarse (last (runs ([d] @ cs))))"
      by (rule Cons.IH [where w = "windowOf d", OF _ _ cur]) simp_all
    have br: "runs (pre @ d # cs) = pre # runs (d # cs)"
      using Cons.prems False by (intro runs_break) auto
    have ne: "runs (d # cs) \<noteq> []" by (rule runs_nonempty)
    show ?thesis
      using ih ne by (simp add: step br case_prod_beta del: runs.simps)
  qed
qed

text \<open>
  C9. Each closed base bucket gets the window id \<open>floor(openTime / 900000)\<close>.
  A bucket with the id of the open coarse bucket is merged into it (high the
  maximum, low the minimum, close the latest, volume added, count plus one) and
  nothing is emitted; a bucket with another id makes the builder emit the open
  coarse bucket and start a new one from the bucket. Hence, from a builder
  with no open coarse bucket, the coarse buckets emitted for a sequence of
  base buckets are the folds of its runs but the last, in order, and the open
  coarse bucket is the fold of the last run.
\<close>

theorem coarse_buckets_fold_runs:
  "(current15m cb = None \<longrightarrow>
      on1mClose cb c =
        (cb\<lparr>current15m := Some (create15mFrom1m c \<lfloor>real_of_int (openTime c) / 900000\<rfloor>)\<rparr>,
         [Close1m c])) \<and>
   (current15m cb = Some cur \<and> \<lfloor>real_of_int (openTime c) / 900000\<rfloor> = windowId cur \<longrightarrow>
      on1mClose cb c =
        (cb\<lparr>current15m :=
             Some (cur\<lparr>high := max (high cur) (high c), low := min (low cur) (low c),
                       close := close c, volume := volume cur + volume c,
                       candle15m.count := candle15m.count cur + 1\<rparr>)\<rparr>,
         [Close1m c])) \<and>
   (current15m cb = Some cur \<and> \<lfloor>real_of_int (openTime c) / 900000\<rfloor> \<noteq> windowId cur \<longrightarrow>
      emitted15m (snd (on1mClose cb c)) = [cur] \<and>
      current15m (fst (on1mClose cb c)) =
        Some (create15mFrom1m c \<lfloor>real_of_int (openTime c) / 900000\<rfloor>)) \<and>
   (current15m cb = None \<and> cs \<noteq> [] \<longrightarrow>
      emitted15m (snd (feed cb cs)) = map coarse (butlast (runs cs)) \<and>
      current15m (fst (feed cb cs)) = Some (coarse (last (runs cs)))) \<and>
   concat (runs cs) = cs \<and>
   (\<forall>r\<in>set (runs cs). r \<noteq> [] \<and> (\<forall>d\<in>set r. windowOf d = windowOf (hd r)))"
proof -
  have w: "\<lfloor>real_of_int (openTime c) / 900000\<rfloor> = windowOf c"
    by (simp add: windowOf_def)
  have p1: "current15m cb = None \<longrightarrow>
      on1mClose cb c = (cb\<lparr>current15m := Some (create15mFrom1m c (windowOf c))\<rparr>, [Close1m c])"
    by (simp add: on1mClose_first)
  have p2: "current15m cb = Some cur \<and> windowOf c = windowId cur \<longrightarrow>
      on1mClose cb c =
        (cb\<lparr>current15m :=
             Some (cur\<lparr>high := max (high cur) (high c), low := min (low cur) (low c),
                       close := close c, volume := volume cur + volume c,
                       candle15m.count := candle15m.count cur + 1\<rparr>)\<rparr>,
         [Close1m c])"
    by (simp add: on1mClose_same update15m_def)
  have p3: "current15m cb = Some cur \<and> windowOf c \<noteq> windowId cur \<longrightarrow>
      emitted15m (snd (on1mClose cb c)) = [cur] \<and>
      current15m (fst (on1mClose cb c)) = Some (create15mFrom1m c (windowOf c))"
    by (simp add: on1mClose_other)
  have p4: "current15m cb = None \<and> cs \<noteq> [] \<longrightarrow>
      emitted15m (snd (feed cb cs)) = map coarse (butlast (runs cs)) \<and>
      current15m (fst (feed cb cs)) = Some (coarse (last (runs cs)))"
  proof
    assume a: "current15m cb = None \<and> cs \<noteq> []"
    then obtain d ds where cs: "cs = d # ds" by (cases cs) auto
    let ?cb1 = "cb\<lparr>current15m := Some (create15mFrom1m d (windowOf d))\<rparr>"
    have step: "on1mClose cb d = (?cb1, [Close1m d])" using a by (simp add: on1mClose_first)
    have cur: "current15m ?cb1 = Some (coarse [d])" by (simp add: create_coarse)
    have "emitted15m (snd (feed ?cb1 ds)) = map coarse (butlast (runs ([d] @ ds))) \<and>
         current15m (fst (feed ?cb1 ds)) = Some (coarse (last (runs ([d] @ ds))))"
      by (rule feed_open [where w = "windowOf d", OF _ _ cur]) simp_all
    then show "emitted15m (snd (feed cb cs)) = map coarse (butlast (runs cs)) \<and>
      current15m (fst (feed cb cs)) = Some (coarse (last (runs cs)))"
      by (simp add: cs step case_prod_beta del: runs.simps)
  qed
  show ?thesis
    unfolding w using p1 p2 p3 p4 runs_concat [of cs] runs_members [of cs] by blast
qed

lemma three_minutes_runs:
  "runs three_minutes =
     [[minute 0 100 102 99 101 5, minute 60000 101 104 100 103 7],
      [minute 900000 103 105 102 104 4]]"
  by (simp add: three_minutes_def windowOf_def minute_def)

theorem coarse_buckets_fold_runs_witness:
  "current15m CandleBuilder_new = None \<and> three_minutes \<noteq> [] \<and>
   emitted15m (snd (feed CandleBuilder_new three_minutes)) =
     [\<lparr>openTime = 0, open_price = 100, high = 104, low = 99, close = 103, volume = 12,
       windowId = 0, count = 2\<rparr>] \<and>
   current15m (fst (feed CandleBuilder_new three_minutes)) =
     Some \<lparr>openTime = 900000, open_price = 103, high = 105, low = 102, close = 104,
           volume = 4, windowId = 1, count = 1\<rparr>"
proof -
  have none: "current15m CandleBuilder_new = None" by (simp add: CandleBuilder_new_def)
  have ne: "three_minutes \<noteq> []" by (simp add: three_minutes_def)
  from coarse_buckets_fold_runs [of CandleBuilder_new _ _ three_minutes] none ne
  have "emitted15m (snd (feed CandleBuilder_new three_minutes)) =
          map coarse (butlast (runs three_minutes)) \<and>
        current15m (fst (feed CandleBuilder_new three_minutes)) =
          Some (coarse (last (runs three_minutes)))"
    by blast
  then show ?thesis
    using none ne
    by (simp add: three_minutes_runs coarse_def minute_def windowOf_def)
qed

section \<open>Absorption detector: candidacy\<close>

lemma shortCandidate_excludes_long:
  "shortCandidate cfg d c fp sh \<Longrightarrow> \<not> longCandidate cfg d c fp sl"
  by (simp add: shortCandidate_def longCandidate_def)

lemma checkCandle_null: "checkCandle cfg d c None sl sh = (None, d)"
  by (simp add: checkCandle_def)

lemma checkCandle_not_ready:
  "\<not> isReady (stats d) \<Longrightarrow> checkCandle cfg d c fpo sl sh = (None, d)"
  by (simp add: checkCandle_def split: option.split)

lemma checkCandle_ready:
  "isReady (stats d) \<Longrightarrow>
     checkCandle cfg d c (Some fp) sl sh =
       (None,
        if shortCandidate cfg d c fp sh then d\<lparr>pending := shortPending c fp sh\<rparr>
        else if longCandidate cfg d c fp sl then d\<lparr>pending := longPending c fp sl\<rparr>
        else d)"
  by (simp add: checkCandle_def Let_def shortCandidate_def longCandidate_def
      shortPending_def longPending_def)

text \<open>
  C1. With a footprint that is not \<open>null\<close> and a ready window, \<open>checkCandle\<close>
  registers the SHORT candidate exactly under the four conditions of the upper
  sweep and the LONG candidate exactly under the four mirrored conditions, the
  lower branch being reached only when the upper one registered nothing (the
  two sets of conditions exclude each other); otherwise the detector is
  unchanged. Without a footprint, or with a window that is not ready, nothing
  is evaluated and the detector is unchanged. The call returns no signal.
\<close>

theorem checkCandle_registers:
  "(isReady (stats d) \<longrightarrow>
      fst (checkCandle cfg d c (Some fp) sl sh) = None \<and>
      (shortCandidate cfg d c fp sh \<longrightarrow>
         snd (checkCandle cfg d c (Some fp) sl sh) = d\<lparr>pending := shortPending c fp sh\<rparr>) \<and>
      (\<not> shortCandidate cfg d c fp sh \<and> longCandidate cfg d c fp sl \<longrightarrow>
         snd (checkCandle cfg d c (Some fp) sl sh) = d\<lparr>pending := longPending c fp sl\<rparr>) \<and>
      (\<not> shortCandidate cfg d c fp sh \<and> \<not> longCandidate cfg d c fp sl \<longrightarrow>
         snd (checkCandle cfg d c (Some fp) sl sh) = d) \<and>
      (shortCandidate cfg d c fp sh \<longrightarrow> \<not> longCandidate cfg d c fp sl) \<and>
      (\<not> hasPending d \<longrightarrow>
         (state (pending (snd (checkCandle cfg d c (Some fp) sl sh))) = SHORT \<longleftrightarrow>
            shortCandidate cfg d c fp sh) \<and>
         (state (pending (snd (checkCandle cfg d c (Some fp) sl sh))) = LONG \<longleftrightarrow>
            longCandidate cfg d c fp sl))) \<and>
   (\<not> isReady (stats d) \<longrightarrow> checkCandle cfg d c fpo sl sh = (None, d)) \<and>
   checkCandle cfg d c None sl sh = (None, d)"
proof (intro conjI impI)
  assume r: "isReady (stats d)"
  note cc = checkCandle_ready [OF r, of cfg c fp sl sh]
  show "fst (checkCandle cfg d c (Some fp) sl sh) = None" by (simp add: cc)
  show "snd (checkCandle cfg d c (Some fp) sl sh) = d\<lparr>pending := shortPending c fp sh\<rparr>"
    if "shortCandidate cfg d c fp sh" using that by (simp add: cc)
  show "snd (checkCandle cfg d c (Some fp) sl sh) = d\<lparr>pending := longPending c fp sl\<rparr>"
    if "\<not> shortCandidate cfg d c fp sh \<and> longCandidate cfg d c fp sl"
    using that by (simp add: cc)
  show "snd (checkCandle cfg d c (Some fp) sl sh) = d"
    if "\<not> shortCandidate cfg d c fp sh \<and> \<not> longCandidate cfg d c fp sl"
    using that by (simp add: cc)
  show "\<not> longCandidate cfg d c fp sl" if "shortCandidate cfg d c fp sh"
    using that by (rule shortCandidate_excludes_long)
  show "state (pending (snd (checkCandle cfg d c (Some fp) sl sh))) = SHORT \<longleftrightarrow>
            shortCandidate cfg d c fp sh" if "\<not> hasPending d"
    using that by (simp add: cc hasPending_def shortPending_def longPending_def)
  show "state (pending (snd (checkCandle cfg d c (Some fp) sl sh))) = LONG \<longleftrightarrow>
            longCandidate cfg d c fp sl" if "\<not> hasPending d"
    using that shortCandidate_excludes_long [of cfg d c fp sh sl]
    by (auto simp add: cc hasPending_def shortPending_def longPending_def)
next
  assume "\<not> isReady (stats d)"
  then show "checkCandle cfg d c fpo sl sh = (None, d)" by (rule checkCandle_not_ready)
next
  show "checkCandle cfg d c None sl sh = (None, d)" by (rule checkCandle_null)
qed

lemma ready_detector_stats:
  "isReady (stats ready_detector)" "avgVolume (stats ready_detector) = 10"
  "avgAbsDelta (stats ready_detector) = 2" "minLevelsSwept ready_detector = 2"
  "\<not> hasPending ready_detector"
  by (simp_all add: ready_detector_def updateStats_def AbsorptionDetector_new_def
      RollingStats_new_def push_def Let_def isReady_def avgVolume_def avgAbsDelta_def
      hasPending_def emptyPending_def)

lemma up_sweep_short:
  "shortCandidate default_alert ready_detector up_sweep (spike 13 7 101)
     (getSweptHighs sample_pools (high up_sweep))"
  by (simp add: shortCandidate_def ready_detector_stats default_alert_def spike_def
      up_sweep_def minute_def getSweptHighs_def sample_pools_def Let_def)

lemma down_sweep_long:
  "longCandidate default_alert ready_detector down_sweep (spike 7 13 94)
     (getSweptLows sample_pools (low down_sweep))"
  by (simp add: longCandidate_def ready_detector_stats default_alert_def spike_def
      down_sweep_def minute_def getSweptLows_def sample_pools_def Let_def)

theorem checkCandle_registers_witness:
  "isReady (stats ready_detector) \<and> \<not> hasPending ready_detector \<and>
   shortCandidate default_alert ready_detector up_sweep (spike 13 7 101)
     (getSweptHighs sample_pools (high up_sweep)) \<and>
   state (pending (snd (checkCandle default_alert ready_detector up_sweep
      (Some (spike 13 7 101)) (getSweptLows sample_pools (low up_sweep))
      (getSweptHighs sample_pools (high up_sweep))))) = SHORT \<and>
   pending.sweepPrice (pending (snd (checkCandle default_alert ready_detector up_sweep
      (Some (spike 13 7 101)) (getSweptLows sample_pools (low up_sweep))
      (getSweptHighs sample_pools (high up_sweep))))) = Some 102 \<and>
   \<not> isReady (stats (AbsorptionDetector_new 20 2)) \<and>
   checkCandle default_alert (AbsorptionDetector_new 20 2) up_sweep
      (Some (spike 13 7 101)) (getSweptLows sample_pools (low up_sweep))
      (getSweptHighs sample_pools (high up_sweep)) = (None, AbsorptionDetector_new 20 2)"
proof -
  have nr: "\<not> isReady (stats (AbsorptionDetector_new 20 2))"
    by (simp add: AbsorptionDetector_new_def RollingStats_new_def isReady_def)
  note t1 = checkCandle_registers [of ready_detector default_alert up_sweep "spike 13 7 101"
      "getSweptLows sample_pools (low up_sweep)" "getSweptHighs sample_pools (high up_sweep)"]
  note t2 = checkCandle_registers [of "AbsorptionDetector_new 20 2" default_alert up_sweep "spike 13 7 101"
      "getSweptLows sample_pools (low up_sweep)" "getSweptHighs sample_pools (high up_sweep)"
      "Some (spike 13 7 101)"]
  from t1 ready_detector_stats(1) up_sweep_short
  have s: "snd (checkCandle default_alert ready_detector up_sweep
      (Some (spike 13 7 101)) (getSweptLows sample_pools (low up_sweep))
      (getSweptHighs sample_pools (high up_sweep))) =
      ready_detector\<lparr>pending := shortPending up_sweep (spike 13 7 101)
         (getSweptHighs sample_pools (high up_sweep))\<rparr>"
    by blast
  from t2 nr have n: "checkCandle default_alert (AbsorptionDetector_new 20 2) up_sweep
      (Some (spike 13 7 101)) (getSweptLows sample_pools (low up_sweep))
      (getSweptHighs sample_pools (high up_sweep)) = (None, AbsorptionDetector_new 20 2)"
    by blast
  have hi: "high up_sweep = 102" by (simp add: up_sweep_def minute_def)
  show ?thesis
    unfolding s n using ready_detector_stats(1,5) up_sweep_short nr
    by (simp add: shortPending_def hi)
qed

section \<open>Absorption detector: confirmation\<close>

lemma checkConfirmation_short:
  assumes "state (pending d) = SHORT"
    and "pending.candle (pending d) = Some c0"
    and "pending.footprint (pending d) = Some fp0"
    and "sweptHighs (pending d) = Some sh"
    and "pending.sweepPrice (pending d) = Some sp"
  shows "checkConfirmation_at d c fpo =
     (if high c > sp then Inr (ReturnShortCancelled, None, d\<lparr>pending := emptyPending\<rparr>)
      else Inr (ReturnShortConfirmed,
             Some \<lparr>sig_type = ''SHORT'',
                   sig_data =
                     \<lparr>sweptLevels = sort (map pivot.price (swept sh)),
                      sweptCount = swept_info.count sh,
                      swingLevel = highestLevel sh,
                      signal_data.sweepPrice = Some sp,
                      signal_data.delta = footprint.delta fp0,
                      signal_data.totalVolume = footprint.totalVolume fp0,
                      signal_data.avgVolume = avgVolume (stats d),
                      signal_data.avgAbsDelta = avgAbsDelta (stats d),
                      signal_data.poc = footprint.poc fp0,
                      candleClose = close c0,
                      volumeMultiple = js_div (footprint.totalVolume fp0) (avgVolume (stats d)),
                      deltaMultiple = js_div \<bar>footprint.delta fp0\<bar> (avgAbsDelta (stats d)),
                      signal_data.candle = c0,
                      signal_data.footprint = fp0,
                      sweptLowsInfo = sweptLows (pending d),
                      sweptHighsInfo = Some sh\<rparr>\<rparr>,
             d\<lparr>pending := emptyPending\<rparr>))"
  using assms
  by (simp add: checkConfirmation_at_def incConfirmCount_def clearPending_def Let_def
      buildResult_def resultData_def js_num_def)

lemma checkConfirmation_long:
  assumes "state (pending d) = LONG"
    and "pending.candle (pending d) = Some c0"
    and "pending.footprint (pending d) = Some fp0"
    and "sweptLows (pending d) = Some sl"
    and "pending.sweepPrice (pending d) = Some sp"
  shows "checkConfirmation_at d c fpo =
     (if low c < sp then Inr (ReturnLongCancelled, None, d\<lparr>pending := emptyPending\<rparr>)
      else Inr (ReturnLongConfirmed,
             Some \<lparr>sig_type = ''LONG'',
                   sig_data =
                     \<lparr>sweptLevels = sort (map pivot.price (swept sl)),
                      sweptCount = swept_info.count sl,
                      swingLevel = highestSweptLevel sl,
                      signal_data.sweepPrice = Some sp,
                      signal_data.delta = footprint.delta fp0,
                      signal_data.totalVolume = footprint.totalVolume fp0,
                      signal_data.avgVolume = avgVolume (stats d),
                      signal_data.avgAbsDelta = avgAbsDelta (stats d),
                      signal_data.poc = footprint.poc fp0,
                      candleClose = close c0,
                      volumeMultiple = js_div (footprint.totalVolume fp0) (avgVolume (stats d)),
                      deltaMultiple = js_div \<bar>footprint.delta fp0\<bar> (avgAbsDelta (stats d)),
                      signal_data.candle = c0,
                      signal_data.footprint = fp0,
                      sweptLowsInfo = Some sl,
                      sweptHighsInfo = sweptHighs (pending d)\<rparr>\<rparr>,
             d\<lparr>pending := emptyPending\<rparr>))"
  using assms
  by (simp add: checkConfirmation_at_def incConfirmCount_def clearPending_def Let_def
      buildResult_def resultData_def js_num_def)

text \<open>
  C2. While a SHORT candidate is pending, \<open>checkConfirmation\<close> cancels it and
  returns no signal exactly when the high of the new bucket is strictly above
  the recorded sweep price; otherwise, a tie included, it returns the SHORT
  signal of the candidate; the detector is idle after the call in both cases.
  A LONG candidate is the mirror, with the low of the bucket strictly below
  the recorded sweep price.
\<close>

theorem checkConfirmation_cancel_or_confirm:
  "(state (pending d) = SHORT \<and> pending.candle (pending d) = Some c0 \<and>
    pending.footprint (pending d) = Some fp0 \<and> sweptHighs (pending d) = Some sh \<and>
    pending.sweepPrice (pending d) = Some sp \<longrightarrow>
      ((\<exists>d'. checkConfirmation d c fpo = Inr (None, d')) \<longleftrightarrow> high c > sp) \<and>
      (high c > sp \<longrightarrow> checkConfirmation d c fpo = Inr (None, d\<lparr>pending := emptyPending\<rparr>)) \<and>
      (high c \<le> sp \<longrightarrow>
         (\<exists>dt. checkConfirmation d c fpo =
                 Inr (Some \<lparr>sig_type = ''SHORT'', sig_data = dt\<rparr>, d\<lparr>pending := emptyPending\<rparr>) \<and>
               sweptLevels dt = sort (map pivot.price (swept sh)) \<and>
               swingLevel dt = highestLevel sh \<and>
               signal_data.sweepPrice dt = Some sp \<and>
               signal_data.candle dt = c0 \<and> signal_data.footprint dt = fp0 \<and>
               sweptHighsInfo dt = Some sh)) \<and>
      (\<exists>r. checkConfirmation d c fpo = Inr (r, d\<lparr>pending := emptyPending\<rparr>)) \<and>
      \<not> hasPending (d\<lparr>pending := emptyPending\<rparr>)) \<and>
   (state (pending d) = LONG \<and> pending.candle (pending d) = Some c0 \<and>
    pending.footprint (pending d) = Some fp0 \<and> sweptLows (pending d) = Some sl \<and>
    pending.sweepPrice (pending d) = Some sp \<longrightarrow>
      ((\<exists>d'. checkConfirmation d c fpo = Inr (None, d')) \<longleftrightarrow> low c < sp) \<and>
      (low c < sp \<longrightarrow> checkConfirmation d c fpo = Inr (None, d\<lparr>pending := emptyPending\<rparr>)) \<and>
      (low c \<ge> sp \<longrightarrow>
         (\<exists>dt. checkConfirmation d c fpo =
                 Inr (Some \<lparr>sig_type = ''LONG'', sig_data = dt\<rparr>, d\<lparr>pending := emptyPending\<rparr>) \<and>
               sweptLevels dt = sort (map pivot.price (swept sl)) \<and>
               swingLevel dt = highestSweptLevel sl \<and>
               signal_data.sweepPrice dt = Some sp \<and>
               signal_data.candle dt = c0 \<and> signal_data.footprint dt = fp0 \<and>
               sweptLowsInfo dt = Some sl)) \<and>
      (\<exists>r. checkConfirmation d c fpo = Inr (r, d\<lparr>pending := emptyPending\<rparr>)) \<and>
      \<not> hasPending (d\<lparr>pending := emptyPending\<rparr>))"
proof (intro conjI impI)
  assume a: "state (pending d) = SHORT \<and> pending.candle (pending d) = Some c0 \<and>
    pending.footprint (pending d) = Some fp0 \<and> sweptHighs (pending d) = Some sh \<and>
    pending.sweepPrice (pending d) = Some sp"
  then have at: "checkConfirmation_at d c fpo =
     (if high c > sp then Inr (ReturnShortCancelled, None, d\<lparr>pending := emptyPending\<rparr>)
      else Inr (ReturnShortConfirmed,
             Some \<lparr>sig_type = ''SHORT'',
                   sig_data =
                     \<lparr>sweptLevels = sort (map pivot.price (swept sh)),
                      sweptCount = swept_info.count sh,
                      swingLevel = highestLevel sh,
                      signal_data.sweepPrice = Some sp,
                      signal_data.delta = footprint.delta fp0,
                      signal_data.totalVolume = footprint.totalVolume fp0,
                      signal_data.avgVolume = avgVolume (stats d),
                      signal_data.avgAbsDelta = avgAbsDelta (stats d),
                      signal_data.poc = footprint.poc fp0,
                      candleClose = close c0,
                      volumeMultiple = js_div (footprint.totalVolume fp0) (avgVolume (stats d)),
                      deltaMultiple = js_div \<bar>footprint.delta fp0\<bar> (avgAbsDelta (stats d)),
                      signal_data.candle = c0,
                      signal_data.footprint = fp0,
                      sweptLowsInfo = sweptLows (pending d),
                      sweptHighsInfo = Some sh\<rparr>\<rparr>,
             d\<lparr>pending := emptyPending\<rparr>))"
    by (intro checkConfirmation_short) simp_all
  show "(\<exists>d'. checkConfirmation d c fpo = Inr (None, d')) \<longleftrightarrow> high c > sp"
    by (simp add: checkConfirmation_def at)
  show "checkConfirmation d c fpo = Inr (None, d\<lparr>pending := emptyPending\<rparr>)" if "high c > sp"
    using that by (simp add: checkConfirmation_def at)
  show "\<exists>dt. checkConfirmation d c fpo =
                 Inr (Some \<lparr>sig_type = ''SHORT'', sig_data = dt\<rparr>, d\<lparr>pending := emptyPending\<rparr>) \<and>
               sweptLevels dt = sort (map pivot.price (swept sh)) \<and>
               swingLevel dt = highestLevel sh \<and>
               signal_data.sweepPrice dt = Some sp \<and>
               signal_data.candle dt = c0 \<and> signal_data.footprint dt = fp0 \<and>
               sweptHighsInfo dt = Some sh" if "high c \<le> sp"
    using that by (simp add: checkConfirmation_def at)
  show "\<exists>r. checkConfirmation d c fpo = Inr (r, d\<lparr>pending := emptyPending\<rparr>)"
    by (simp add: checkConfirmation_def at)
  show "\<not> hasPending (d\<lparr>pending := emptyPending\<rparr>)"
    by (simp add: hasPending_def emptyPending_def)
next
  assume a: "state (pending d) = LONG \<and> pending.candle (pending d) = Some c0 \<and>
    pending.footprint (pending d) = Some fp0 \<and> sweptLows (pending d) = Some sl \<and>
    pending.sweepPrice (pending d) = Some sp"
  then have at: "checkConfirmation_at d c fpo =
     (if low c < sp then Inr (ReturnLongCancelled, None, d\<lparr>pending := emptyPending\<rparr>)
      else Inr (ReturnLongConfirmed,
             Some \<lparr>sig_type = ''LONG'',
                   sig_data =
                     \<lparr>sweptLevels = sort (map pivot.price (swept sl)),
                      sweptCount = swept_info.count sl,
                      swingLevel = highestSweptLevel sl,
                      signal_data.sweepPrice = Some sp,
                      signal_data.delta = footprint.delta fp0,
                      signal_data.totalVolume = footprint.totalVolume fp0,
                      signal_data.avgVolume = avgVolume (stats d),
                      signal_data.avgAbsDelta = avgAbsDelta (stats d),
                      signal_data.poc = footprint.poc fp0,
                      candleClose = close c0,
                      volumeMultiple = js_div (footprint.totalVolume fp0) (avgVolume (stats d)),
                      deltaMultiple = js_div \<bar>footprint.delta fp0\<bar> (avgAbsDelta (stats d)),
                      signal_data.candle = c0,
                      signal_data.footprint = fp0,
                      sweptLowsInfo = Some sl,
                      sweptHighsInfo = sweptHighs (pending d)\<rparr>\<rparr>,
             d\<lparr>pending := emptyPending\<rparr>))"
    by (intro checkConfirmation_long) simp_all
  show "(\<exists>d'. checkConfirmation d c fpo = Inr (None, d')) \<longleftrightarrow> low c < sp"
    by (simp add: checkConfirmation_def at)
  show "checkConfirmation d c fpo = Inr (None, d\<lparr>pending := emptyPending\<rparr>)" if "low c < sp"
    using that by (simp add: checkConfirmation_def at)
  show "\<exists>dt. checkConfirmation d c fpo =
                 Inr (Some \<lparr>sig_type = ''LONG'', sig_data = dt\<rparr>, d\<lparr>pending := emptyPending\<rparr>) \<and>
               sweptLevels dt = sort (map pivot.price (swept sl)) \<and>
               swingLevel dt = highestSweptLevel sl \<and>
               signal_data.sweepPrice dt = Some sp \<and>
               signal_data.candle dt = c0 \<and> signal_data.footprint dt = fp0 \<and>
               sweptLowsInfo dt = Some sl" if "low c \<ge> sp"
    using that by (simp add: checkConfirmation_def at)
  show "\<exists>r. checkConfirmation d c fpo = Inr (r, d\<lparr>pending := emptyPending\<rparr>)"
    by (simp add: checkConfirmation_def at)
  show "\<not> hasPending (d\<lparr>pending := emptyPending\<rparr>)"
    by (simp add: hasPending_def emptyPending_def)
qed

lemma sweep105_short:
  "shortCandidate default_alert ready_detector sweep105 (spike 13 7 101)
     (getSweptHighs sample_pools (high sweep105))"
  by (simp add: shortCandidate_def ready_detector_stats default_alert_def spike_def
      sweep105_def minute_def getSweptHighs_def sample_pools_def Let_def)

lemma short_pending_detector_eq:
  "short_pending_detector =
     ready_detector\<lparr>pending := shortPending sweep105 (spike 13 7 101)
        (getSweptHighs sample_pools (high sweep105))\<rparr>"
  unfolding short_pending_detector_def
  using sweep105_short by (simp add: checkCandle_ready [OF ready_detector_stats(1)])

lemma short_pending_detector_fields:
  "state (pending short_pending_detector) = SHORT"
  "pending.candle (pending short_pending_detector) = Some sweep105"
  "pending.footprint (pending short_pending_detector) = Some (spike 13 7 101)"
  "sweptHighs (pending short_pending_detector) = Some (getSweptHighs sample_pools (high sweep105))"
  "pending.sweepPrice (pending short_pending_detector) = Some 105"
  by (simp_all add: short_pending_detector_eq shortPending_def sweep105_def minute_def)

theorem checkConfirmation_cancel_or_confirm_witness:
  "state (pending short_pending_detector) = SHORT \<and>
   pending.sweepPrice (pending short_pending_detector) = Some 105 \<and>
   high (next_high 106) > 105 \<and>
   checkConfirmation short_pending_detector (next_high 106) None =
     Inr (None, short_pending_detector\<lparr>pending := emptyPending\<rparr>) \<and>
   high (next_high 104.9) \<le> 105 \<and>
   (\<exists>dt. checkConfirmation short_pending_detector (next_high 104.9) None =
      Inr (Some \<lparr>sig_type = ''SHORT'', sig_data = dt\<rparr>,
           short_pending_detector\<lparr>pending := emptyPending\<rparr>) \<and>
      sweptLevels dt = [100, 101, 103] \<and> swingLevel dt = Some 103) \<and>
   high (next_high 105) \<le> 105 \<and>
   (\<exists>dt. checkConfirmation short_pending_detector (next_high 105) None =
      Inr (Some \<lparr>sig_type = ''SHORT'', sig_data = dt\<rparr>,
           short_pending_detector\<lparr>pending := emptyPending\<rparr>) \<and>
      swingLevel dt = Some 103)"
proof -
  note f = short_pending_detector_fields
  have h: "high (next_high 106) > 105" "high (next_high 104.9) \<le> 105"
    "high (next_high 105) \<le> 105"
    by (simp_all add: next_high_def minute_def)
  have sh: "sort (map pivot.price (swept (getSweptHighs sample_pools (high sweep105)))) =
      [100, 101, 103]"
    "highestLevel (getSweptHighs sample_pools (high sweep105)) = Some 103"
    by (simp_all add: getSweptHighs_def sample_pools_def sweep105_def minute_def Let_def
        Math_max_def)
  note t = checkConfirmation_cancel_or_confirm [of short_pending_detector sweep105 "spike 13 7 101"
      "getSweptHighs sample_pools (high sweep105)" 105 _ None]
  from t [of "next_high 106"] f h(1)
  have c1: "checkConfirmation short_pending_detector (next_high 106) None =
     Inr (None, short_pending_detector\<lparr>pending := emptyPending\<rparr>)"
    by blast
  from t [of "next_high 104.9"] f h(2)
  have c2: "\<exists>dt. checkConfirmation short_pending_detector (next_high 104.9) None =
      Inr (Some \<lparr>sig_type = ''SHORT'', sig_data = dt\<rparr>,
           short_pending_detector\<lparr>pending := emptyPending\<rparr>) \<and>
      sweptLevels dt = [100, 101, 103] \<and> swingLevel dt = Some 103"
    unfolding sh [symmetric] by blast
  from t [of "next_high 105"] f h(3)
  have c3: "\<exists>dt. checkConfirmation short_pending_detector (next_high 105) None =
      Inr (Some \<lparr>sig_type = ''SHORT'', sig_data = dt\<rparr>,
           short_pending_detector\<lparr>pending := emptyPending\<rparr>) \<and>
      swingLevel dt = Some 103"
    unfolding sh [symmetric] by blast
  show ?thesis using f(1,5) h c1 c2 c3 by blast
qed

section \<open>Absorption detector: one candidate, resolved in one call\<close>

lemma candidate_inv_new: "candidate_inv (AbsorptionDetector_new ws ml)"
  by (simp add: candidate_inv_def AbsorptionDetector_new_def emptyPending_def)

lemma candidate_inv_updateStats: "candidate_inv d \<Longrightarrow> candidate_inv (updateStats d tv dl)"
  by (simp add: candidate_inv_def updateStats_def)

lemma candidate_inv_checkCandle:
  "candidate_inv d \<Longrightarrow> candidate_inv (snd (checkCandle cfg d c fpo sl sh))"
  by (simp add: candidate_inv_def checkCandle_def Let_def split: option.split)

lemma candidate_inv_clear: "candidate_inv d \<Longrightarrow> candidate_inv (d\<lparr>pending := emptyPending\<rparr>)"
  by (simp add: candidate_inv_def emptyPending_def)

lemma checkConfirmation_at_inv:
  assumes "candidate_inv d"
  shows "\<exists>x r. checkConfirmation_at d c fpo =
           Inr (x, r, if hasPending d then d\<lparr>pending := emptyPending\<rparr> else d) \<and>
         (if hasPending d
          then x = ReturnShortCancelled \<or> x = ReturnShortConfirmed \<or>
               x = ReturnLongCancelled \<or> x = ReturnLongConfirmed
          else x = ReturnIdle)"
proof (cases "state (pending d)")
  case NONE
  then show ?thesis by (simp add: checkConfirmation_at_def hasPending_def)
next
  case SHORT
  with assms obtain c0 fp0 sh sp where
    "pending.candle (pending d) = Some c0" "pending.footprint (pending d) = Some fp0"
    "sweptHighs (pending d) = Some sh" "pending.sweepPrice (pending d) = Some sp"
    by (auto simp: candidate_inv_def)
  from checkConfirmation_short [OF SHORT this, of c fpo] SHORT show ?thesis
    by (simp add: hasPending_def)
next
  case LONG
  with assms obtain c0 fp0 sl sp where
    "pending.candle (pending d) = Some c0" "pending.footprint (pending d) = Some fp0"
    "sweptLows (pending d) = Some sl" "pending.sweepPrice (pending d) = Some sp"
    by (auto simp: candidate_inv_def)
  from checkConfirmation_long [OF LONG this, of c fpo] LONG show ?thesis
    by (simp add: hasPending_def)
qed

lemma call_step_inv:
  assumes "candidate_inv d"
  shows "\<exists>d'. call_step cfg d x = Inr d' \<and> candidate_inv d'"
proof (cases x)
  case (UpdateStats tv dl)
  then show ?thesis using assms by (simp add: candidate_inv_updateStats)
next
  case (CheckCandle c fpo sl sh)
  then show ?thesis using assms by (simp add: candidate_inv_checkCandle)
next
  case (CheckConfirmation c fpo)
  from checkConfirmation_at_inv [OF assms, of c fpo] obtain x' r where
    "checkConfirmation_at d c fpo =
       Inr (x', r, if hasPending d then d\<lparr>pending := emptyPending\<rparr> else d)"
    by blast
  then show ?thesis
    using assms CheckConfirmation
    by (simp add: checkConfirmation_def candidate_inv_clear)
qed

lemma calls_inv:
  "candidate_inv d \<Longrightarrow> \<exists>d'. calls cfg d xs = Inr d' \<and> candidate_inv d'"
proof (induction xs arbitrary: d)
  case Nil
  then show ?case by simp
next
  case (Cons x xs)
  from call_step_inv [OF Cons.prems, of cfg x] obtain d1 where
    d1: "call_step cfg d x = Inr d1" "candidate_inv d1" by blast
  from Cons.IH [OF d1(2)] show ?case by (simp add: d1(1))
qed

text \<open>
  C10. After any sequence of calls on a new detector of the pool-based design
  no call has thrown and the confirmation counter is 0; the increment of
  \<open>checkConfirmation\<close> takes it to 1, below the limit of 2; and the call
  leaves through one of the four returns that cancel or confirm the candidate
  (through the first return when nothing is pending), never through the
  check of \<open>maxConfirmCandles\<close> at the end of the function, with nothing
  pending and the counter 0 afterwards.
\<close>

theorem confirmation_in_one_call:
  "\<exists>d. calls cfg (AbsorptionDetector_new ws ml) xs = Inr d \<and>
     confirmCount (pending d) = 0 \<and>
     confirmCount (pending (incConfirmCount d)) = 1 \<and>
     confirmCount (pending (incConfirmCount d)) < maxConfirmCandles (incConfirmCount d) \<and>
     (\<exists>x r d'. checkConfirmation_at d c fpo = Inr (x, r, d') \<and>
        x \<noteq> ReturnLimitCancelled \<and> x \<noteq> ReturnStillPending \<and>
        (hasPending d \<longrightarrow>
           x = ReturnShortCancelled \<or> x = ReturnShortConfirmed \<or>
           x = ReturnLongCancelled \<or> x = ReturnLongConfirmed) \<and>
        \<not> hasPending d' \<and> confirmCount (pending d') = 0)"
proof -
  from calls_inv [OF candidate_inv_new, of cfg ws ml xs] obtain d where
    d: "calls cfg (AbsorptionDetector_new ws ml) xs = Inr d" "candidate_inv d" by blast
  from checkConfirmation_at_inv [OF d(2), of c fpo] obtain x r where
    at: "checkConfirmation_at d c fpo =
           Inr (x, r, if hasPending d then d\<lparr>pending := emptyPending\<rparr> else d)"
    and x: "if hasPending d
          then x = ReturnShortCancelled \<or> x = ReturnShortConfirmed \<or>
               x = ReturnLongCancelled \<or> x = ReturnLongConfirmed
          else x = ReturnIdle"
    by blast
  have cnt: "confirmCount (pending d) = 0" "maxConfirmCandles d = 2"
    using d(2) by (simp_all add: candidate_inv_def)
  have inc: "confirmCount (pending (incConfirmCount d)) = 1"
    "maxConfirmCandles (incConfirmCount d) = 2"
    using cnt by (simp_all add: incConfirmCount_def)
  have x1: "x \<noteq> ReturnLimitCancelled" "x \<noteq> ReturnStillPending"
    using x by (auto split: if_splits)
  have x2: "hasPending d \<longrightarrow>
           x = ReturnShortCancelled \<or> x = ReturnShortConfirmed \<or>
           x = ReturnLongCancelled \<or> x = ReturnLongConfirmed"
    using x by simp
  have after: "\<not> hasPending (if hasPending d then d\<lparr>pending := emptyPending\<rparr> else d)"
    "confirmCount (pending (if hasPending d then d\<lparr>pending := emptyPending\<rparr> else d)) = 0"
    using cnt by (simp_all add: hasPending_def emptyPending_def)
  from inc have lt:
    "confirmCount (pending (incConfirmCount d)) < maxConfirmCandles (incConfirmCount d)"
    by simp
  from at x1 x2 after have inner:
    "\<exists>x r d'. checkConfirmation_at d c fpo = Inr (x, r, d') \<and>
        x \<noteq> ReturnLimitCancelled \<and> x \<noteq> ReturnStillPending \<and>
        (hasPending d \<longrightarrow>
           x = ReturnShortCancelled \<or> x = ReturnShortConfirmed \<or>
           x = ReturnLongCancelled \<or> x = ReturnLongConfirmed) \<and>
        \<not> hasPending d' \<and> confirmCount (pending d') = 0"
    by blast
  from d(1) cnt(1) inc(1) lt inner show ?thesis by blast
qed

lemma sweep92_long:
  "longCandidate default_alert ready_detector sweep92 (spike 7 13 94)
     (getSweptLows sample_pools (low sweep92))"
  by (simp add: longCandidate_def ready_detector_stats default_alert_def spike_def
      sweep92_def minute_def getSweptLows_def sample_pools_def Let_def)

lemma sweep92_not_short:
  "\<not> shortCandidate default_alert ready_detector sweep92 (spike 7 13 94)
     (getSweptHighs sample_pools (high sweep92))"
  by (simp add: shortCandidate_def spike_def sweep92_def minute_def)

lemma calls_short_pending:
  "calls default_alert (AbsorptionDetector_new 2 2)
     [UpdateStats 10 (- 2),
      CheckCandle sweep105 (Some (spike 13 7 101)) (getSweptLows sample_pools (low sweep105))
        (getSweptHighs sample_pools (high sweep105))] = Inr short_pending_detector"
  by (simp add: short_pending_detector_def ready_detector_def)

theorem confirmation_in_one_call_witness:
  "calls default_alert (AbsorptionDetector_new 2 2)
     [UpdateStats 10 (- 2),
      CheckCandle sweep105 (Some (spike 13 7 101)) (getSweptLows sample_pools (low sweep105))
        (getSweptHighs sample_pools (high sweep105))] = Inr short_pending_detector \<and>
   hasPending short_pending_detector \<and>
   confirmCount (pending short_pending_detector) = 0 \<and>
   (\<exists>r. checkConfirmation_at short_pending_detector (next_high 106) None =
      Inr (ReturnShortCancelled, r, short_pending_detector\<lparr>pending := emptyPending\<rparr>)) \<and>
   (\<exists>r. checkConfirmation_at short_pending_detector (next_high 105) None =
      Inr (ReturnShortConfirmed, r, short_pending_detector\<lparr>pending := emptyPending\<rparr>))"
proof -
  note f = short_pending_detector_fields
  have hp: "hasPending short_pending_detector" by (simp add: hasPending_def f)
  from confirmation_in_one_call [of default_alert 2 2
      "[UpdateStats 10 (- 2),
        CheckCandle sweep105 (Some (spike 13 7 101)) (getSweptLows sample_pools (low sweep105))
          (getSweptHighs sample_pools (high sweep105))]" "next_high 106" None]
  have cnt: "confirmCount (pending short_pending_detector) = 0"
    unfolding calls_short_pending by blast
  have h: "high (next_high 106) > 105" "\<not> high (next_high 105) > 105"
    by (simp_all add: next_high_def minute_def)
  have c1: "\<exists>r. checkConfirmation_at short_pending_detector (next_high 106) None =
      Inr (ReturnShortCancelled, r, short_pending_detector\<lparr>pending := emptyPending\<rparr>)"
    using h(1) by (simp add: checkConfirmation_short [OF f])
  have c2: "\<exists>r. checkConfirmation_at short_pending_detector (next_high 105) None =
      Inr (ReturnShortConfirmed, r, short_pending_detector\<lparr>pending := emptyPending\<rparr>)"
    using h(2) by (simp add: checkConfirmation_short [OF f])
  show ?thesis using calls_short_pending hp cnt c1 c2 by blast
qed

text \<open>
  C5, as amended. The detector has one slot for a pending candidate.
  \<open>checkCandle\<close> does not read it: whatever is pending, with a ready window it
  puts the SHORT or the LONG candidate of the bucket in the slot when the
  conditions of that candidate hold, and leaves the slot as it is otherwise.
  \<open>checkConfirmation\<close> always leaves the detector idle, so a caller that
  runs it before \<open>checkCandle\<close> evaluates candidacy from the idle state.
\<close>

theorem checkCandle_overwrites_pending:
  "(isReady (stats d) \<and> shortCandidate cfg d c fp sh \<longrightarrow>
      snd (checkCandle cfg (d\<lparr>pending := p\<rparr>) c (Some fp) sl sh) =
        d\<lparr>pending := shortPending c fp sh\<rparr>) \<and>
   (isReady (stats d) \<and> \<not> shortCandidate cfg d c fp sh \<and> longCandidate cfg d c fp sl \<longrightarrow>
      snd (checkCandle cfg (d\<lparr>pending := p\<rparr>) c (Some fp) sl sh) =
        d\<lparr>pending := longPending c fp sl\<rparr>) \<and>
   (\<not> isReady (stats d) \<or>
    (\<not> shortCandidate cfg d c fp sh \<and> \<not> longCandidate cfg d c fp sl) \<longrightarrow>
      snd (checkCandle cfg (d\<lparr>pending := p\<rparr>) c (Some fp) sl sh) = d\<lparr>pending := p\<rparr>) \<and>
   snd (checkCandle cfg (d\<lparr>pending := p\<rparr>) c None sl sh) = d\<lparr>pending := p\<rparr> \<and>
   (checkConfirmation d c fpo = Inr (r, d') \<longrightarrow> \<not> hasPending d')"
proof -
  have eqs: "shortCandidate cfg (d\<lparr>pending := p\<rparr>) c fp sh = shortCandidate cfg d c fp sh"
    "longCandidate cfg (d\<lparr>pending := p\<rparr>) c fp sl = longCandidate cfg d c fp sl"
    by (simp_all add: shortCandidate_def longCandidate_def)
  have rdy: "checkCandle cfg (d\<lparr>pending := p\<rparr>) c (Some fp) sl sh =
       (None,
        if shortCandidate cfg d c fp sh then d\<lparr>pending := shortPending c fp sh\<rparr>
        else if longCandidate cfg d c fp sl then d\<lparr>pending := longPending c fp sl\<rparr>
        else d\<lparr>pending := p\<rparr>)" if "isReady (stats d)"
    using that checkCandle_ready [of "d\<lparr>pending := p\<rparr>" cfg c fp sl sh]
    by (simp add: eqs)
  have nrdy: "checkCandle cfg (d\<lparr>pending := p\<rparr>) c (Some fp) sl sh = (None, d\<lparr>pending := p\<rparr>)"
    if "\<not> isReady (stats d)"
    using that by (simp add: checkCandle_def)
  have p1: "isReady (stats d) \<and> shortCandidate cfg d c fp sh \<longrightarrow>
      snd (checkCandle cfg (d\<lparr>pending := p\<rparr>) c (Some fp) sl sh) =
        d\<lparr>pending := shortPending c fp sh\<rparr>"
    by (simp add: rdy)
  have p2: "isReady (stats d) \<and> \<not> shortCandidate cfg d c fp sh \<and> longCandidate cfg d c fp sl \<longrightarrow>
      snd (checkCandle cfg (d\<lparr>pending := p\<rparr>) c (Some fp) sl sh) =
        d\<lparr>pending := longPending c fp sl\<rparr>"
    by (simp add: rdy)
  have p3: "\<not> isReady (stats d) \<or>
    (\<not> shortCandidate cfg d c fp sh \<and> \<not> longCandidate cfg d c fp sl) \<longrightarrow>
      snd (checkCandle cfg (d\<lparr>pending := p\<rparr>) c (Some fp) sl sh) = d\<lparr>pending := p\<rparr>"
    using rdy nrdy by (cases "isReady (stats d)") auto
  have p4: "snd (checkCandle cfg (d\<lparr>pending := p\<rparr>) c None sl sh) = d\<lparr>pending := p\<rparr>"
    by (simp add: checkCandle_def)
  have p5: "checkConfirmation d c fpo = Inr (r, d') \<longrightarrow> \<not> hasPending d'"
  proof
    assume a: "checkConfirmation d c fpo = Inr (r, d')"
    show "\<not> hasPending d'"
    proof (cases "state (pending d)")
      case NONE
      with a show ?thesis
        by (auto simp: checkConfirmation_def checkConfirmation_at_def hasPending_def)
    next
      case SHORT
      with a show ?thesis
        by (auto simp: checkConfirmation_def checkConfirmation_at_def Let_def hasPending_def
            incConfirmCount_def clearPending_def emptyPending_def
            split: if_splits sum.splits)
    next
      case LONG
      with a show ?thesis
        by (auto simp: checkConfirmation_def checkConfirmation_at_def Let_def hasPending_def
            incConfirmCount_def clearPending_def emptyPending_def
            split: if_splits sum.splits)
    qed
  qed
  show ?thesis using p1 p2 p3 p4 p5 by blast
qed

lemma overwrite_eval:
  "snd (checkCandle default_alert short_pending_detector sweep92 (Some (spike 7 13 94))
          (getSweptLows sample_pools (low sweep92)) (getSweptHighs sample_pools (high sweep92))) =
   ready_detector\<lparr>pending := longPending sweep92 (spike 7 13 94)
      (getSweptLows sample_pools (low sweep92))\<rparr>"
proof -
  have "isReady (stats short_pending_detector)"
    by (simp add: short_pending_detector_eq ready_detector_stats)
  moreover have "\<not> shortCandidate default_alert short_pending_detector sweep92 (spike 7 13 94)
     (getSweptHighs sample_pools (high sweep92))"
    by (simp add: shortCandidate_def spike_def sweep92_def minute_def)
  moreover have "longCandidate default_alert short_pending_detector sweep92 (spike 7 13 94)
     (getSweptLows sample_pools (low sweep92))"
    using sweep92_long by (simp add: longCandidate_def short_pending_detector_eq)
  ultimately show ?thesis
    by (simp add: checkCandle_ready) (simp add: short_pending_detector_eq)
qed

theorem checkCandle_overwrites_pending_witness:
  "isReady (stats ready_detector) \<and>
   \<not> shortCandidate default_alert ready_detector sweep92 (spike 7 13 94)
       (getSweptHighs sample_pools (high sweep92)) \<and>
   longCandidate default_alert ready_detector sweep92 (spike 7 13 94)
       (getSweptLows sample_pools (low sweep92)) \<and>
   snd (checkCandle default_alert (ready_detector\<lparr>pending := pending short_pending_detector\<rparr>)
          sweep92 (Some (spike 7 13 94)) (getSweptLows sample_pools (low sweep92))
          (getSweptHighs sample_pools (high sweep92))) =
     ready_detector\<lparr>pending := longPending sweep92 (spike 7 13 94)
        (getSweptLows sample_pools (low sweep92))\<rparr> \<and>
   checkConfirmation short_pending_detector (next_high 106) None =
     Inr (None, short_pending_detector\<lparr>pending := emptyPending\<rparr>) \<and>
   \<not> hasPending (short_pending_detector\<lparr>pending := emptyPending\<rparr>)"
proof -
  have cc: "checkConfirmation short_pending_detector (next_high 106) None =
     Inr (None, short_pending_detector\<lparr>pending := emptyPending\<rparr>)"
    by (simp add: checkConfirmation_def checkConfirmation_short [OF short_pending_detector_fields]
        next_high_def minute_def)
  from checkCandle_overwrites_pending [where d = ready_detector and cfg = default_alert and c = sweep92
      and fp = "spike 7 13 94" and sh = "getSweptHighs sample_pools (high sweep92)"
      and p = "pending short_pending_detector"
      and sl = "getSweptLows sample_pools (low sweep92)"]
    ready_detector_stats(1) sweep92_not_short sweep92_long
  have ow: "snd (checkCandle default_alert (ready_detector\<lparr>pending := pending short_pending_detector\<rparr>)
          sweep92 (Some (spike 7 13 94)) (getSweptLows sample_pools (low sweep92))
          (getSweptHighs sample_pools (high sweep92))) =
     ready_detector\<lparr>pending := longPending sweep92 (spike 7 13 94)
        (getSweptLows sample_pools (low sweep92))\<rparr>"
    by blast
  from checkCandle_overwrites_pending [where d = short_pending_detector and c = "next_high 106"
      and fpo = None and r = None
      and d' = "short_pending_detector\<lparr>pending := emptyPending\<rparr>"] cc
  have idle: "\<not> hasPending (short_pending_detector\<lparr>pending := emptyPending\<rparr>)"
    by blast
  show ?thesis
    using ready_detector_stats(1) sweep92_not_short sweep92_long ow cc idle by blast
qed

text \<open>
  The claim as it stands fails: \<open>short_pending_detector\<close> holds a pending SHORT
  candidate, and \<open>checkCandle\<close> on a bucket that meets the LONG conditions
  replaces it by a LONG candidate.
\<close>

theorem checkCandle_overwrites_pending_counterexample:
  "hasPending short_pending_detector \<and>
   state (pending short_pending_detector) = SHORT \<and>
   state (pending (snd (checkCandle default_alert short_pending_detector sweep92
      (Some (spike 7 13 94)) (getSweptLows sample_pools (low sweep92))
      (getSweptHighs sample_pools (high sweep92))))) = LONG \<and>
   snd (checkCandle default_alert short_pending_detector sweep92
      (Some (spike 7 13 94)) (getSweptLows sample_pools (low sweep92))
      (getSweptHighs sample_pools (high sweep92))) \<noteq> short_pending_detector"
proof -
  have "state (pending short_pending_detector) = SHORT"
    by (rule short_pending_detector_fields)
  moreover have "state (pending (ready_detector\<lparr>pending := longPending sweep92 (spike 7 13 94)
      (getSweptLows sample_pools (low sweep92))\<rparr>)) = LONG"
    by (simp add: longPending_def)
  ultimately show ?thesis
    unfolding overwrite_eval by (auto simp: hasPending_def dest: arg_cong [where f = "\<lambda>x. state (pending x)"])
qed

section \<open>Bot: the pools after a confirmed signal\<close>

lemma checkConfirmation_leaves_inputs:
  "checkConfirmation d c fpo = Inr (r, d') \<Longrightarrow> stats d' = stats d \<and> minLevelsSwept d' = minLevelsSwept d"
  by (auto simp: checkConfirmation_def checkConfirmation_at_def Let_def incConfirmCount_def
      clearPending_def split: if_splits sum.splits)

lemma clearSweptLevels_high:
  "swingHighPool (clearSweptLevels sd ''high'' sw) =
     filter (\<lambda>s. time s \<notin> time ` set sw) (swingHighPool sd) \<and>
   swingLowPool (clearSweptLevels sd ''high'' sw) = swingLowPool sd"
  by (simp add: clearSweptLevels_def)

lemma clearSweptLevels_low:
  "ty \<noteq> ''high'' \<Longrightarrow>
   swingLowPool (clearSweptLevels sd ty sw) =
     filter (\<lambda>s. time s \<notin> time ` set sw) (swingLowPool sd) \<and>
   swingHighPool (clearSweptLevels sd ty sw) = swingHighPool sd"
  by (simp add: clearSweptLevels_def)





end
